theory Spec2Isabelle
  imports Main "HOL-Library.Word"
begin

unbundle bit_operations_syntax

section \<open>Go library operations used by the VRF delegate\<close>

type_synonym byte = "8 word"

text \<open>
  \<^verbatim>\<open>strings.Replace(s, `"`, ``, n)\<close>: the first \<open>n\<close> occurrences of the one-byte string
  \<open>old\<close> are deleted, wherever they stand in \<open>s\<close>.
\<close>

fun strings_Replace_del :: "string \<Rightarrow> char \<Rightarrow> nat \<Rightarrow> string" where
  "strings_Replace_del s old 0 = s"
| "strings_Replace_del [] old (Suc n) = []"
| "strings_Replace_del (c # s) old (Suc n) =
     (if c = old then strings_Replace_del s old n else c # strings_Replace_del s old (Suc n))"

definition dquote :: char where
  "dquote = CHR 0x22"

datatype panic = SliceBoundsOutOfRange nat nat

text \<open>
  The slice expression \<^verbatim>\<open>s[lo:]\<close> on a string: a run-time panic when \<open>lo\<close> exceeds the
  length of \<open>s\<close>.
\<close>

definition slice_from :: "string \<Rightarrow> nat \<Rightarrow> panic + string" where
  "slice_from s lo = (if length s < lo then Inl (SliceBoundsOutOfRange lo (length s)) else Inr (drop lo s))"

datatype err =
    InvalidByteError char
  | ErrLength
  | ErrorNew string
  | External string

text \<open>
  \<^verbatim>\<open>encoding/hex\<close>: \<open>fromHexChar\<close> is the reverse table (digits, \<open>a\<close> to \<open>f\<close>, \<open>A\<close> to \<open>F\<close>),
  \<open>hex_DecodeString\<close> the decoding loop, two characters a byte, an invalid character reported
  before an odd length.
\<close>

definition fromHexChar :: "char \<Rightarrow> byte option" where
  "fromHexChar c =
     (let n = (of_char c :: nat) in
      if 48 \<le> n \<and> n \<le> 57 then Some (of_nat (n - 48))
      else if 97 \<le> n \<and> n \<le> 102 then Some (of_nat (n - 87))
      else if 65 \<le> n \<and> n \<le> 70 then Some (of_nat (n - 55))
      else None)"

fun hex_DecodeString :: "string \<Rightarrow> err + byte list" where
  "hex_DecodeString (p # q # rest) =
     (case fromHexChar p of
        None \<Rightarrow> Inl (InvalidByteError p)
      | Some a \<Rightarrow>
         (case fromHexChar q of
            None \<Rightarrow> Inl (InvalidByteError q)
          | Some b \<Rightarrow>
             (case hex_DecodeString rest of
                Inl e \<Rightarrow> Inl e
              | Inr bs \<Rightarrow> Inr ((push_bit 4 a OR b) # bs))))"
| "hex_DecodeString [p] =
     (case fromHexChar p of
        None \<Rightarrow> Inl (InvalidByteError p)
      | Some a \<Rightarrow> Inl ErrLength)"
| "hex_DecodeString [] = Inr []"

text \<open>
  The built-in \<^verbatim>\<open>copy(dst, src)\<close>: the first \<open>min (len dst) (len src)\<close> elements of
  \<open>src\<close> overwrite the start of \<open>dst\<close>; the rest of \<open>dst\<close> is kept.
\<close>

definition go_copy :: "'a list \<Rightarrow> 'a list \<Rightarrow> 'a list" where
  "go_copy dst src = (let n = min (length dst) (length src) in take n src @ drop n dst)"

text \<open>
  \<^verbatim>\<open>new(big.Int).SetBytes(b)\<close> reads \<open>b\<close> as a big-endian unsigned integer, and
  \<^verbatim>\<open>String()\<close> prints it in base 10.
\<close>

definition big_SetBytes :: "byte list \<Rightarrow> nat" where
  "big_SetBytes b = foldl (\<lambda>acc x. acc * 256 + unat x) 0 b"

definition digit_char :: "nat \<Rightarrow> char" where
  "digit_char d = char_of (48 + d)"

fun big_String :: "nat \<Rightarrow> string" where
  "big_String n = (if n < 10 then [digit_char n] else big_String (n div 10) @ [digit_char (n mod 10)])"

declare big_String.simps [simp del]


section \<open>The logger and the trace of collaborator calls\<close>

datatype log_value = LErr err | LStr string | LInt int

record logger =
  lg_names :: "string list"
  lg_fields :: "(string \<times> log_value) list"

definition logger_With :: "logger \<Rightarrow> (string \<times> log_value) list \<Rightarrow> logger" where
  "logger_With l kvs = l\<lparr>lg_fields := lg_fields l @ kvs\<rparr>"

definition logger_Named :: "logger \<Rightarrow> string \<Rightarrow> logger" where
  "logger_Named l n = l\<lparr>lg_names := lg_names l @ [n]\<rparr>"

type_synonym address = string

text \<open>
  Every call that leaves the delegate is recorded, in order: a line written to a logger, the
  query sent to the store, a lookup in the chain set, the construction of a contract binding
  and the contract call \<^verbatim>\<open>LINKETHFEED\<close>.
\<close>

datatype event =
    Errorw logger string "(string \<times> log_value) list"
  | Select "64 word" "32 word"
  | ChainSetGet int
  | NewVRFCoordinator address
  | NewVRFCoordinatorV2 address
  | LINKETHFEED address
  | NewAggregatorV3Interface address

section \<open>The store and the query of getRespCounts\<close>

text \<open>
  The four relations the query reads, with the columns it names. \<open>tx_meta_RequestID\<close> is
  the value of \<^verbatim>\<open>meta->'RequestID'\<close> as the store prints it (a JSON string keeps its
  quotes), \<open>None\<close> when it is SQL NULL. \<open>tx_evm_chain_id\<close> is the chain of the
  transaction, a column of \<^verbatim>\<open>eth_txes\<close> that the query does not mention.
\<close>

record eth_tx =
  tx_id :: int
  tx_state :: string
  tx_meta_RequestID :: "string option"
  tx_evm_chain_id :: int

record eth_tx_attempt =
  eta_eth_tx_id :: int
  eta_hash :: string

record eth_receipt =
  er_tx_hash :: string
  er_block_number :: int

record evm_head =
  head_evm_chain_id :: int
  head_number :: int

record database =
  eth_txes :: "eth_tx list"
  eth_tx_attempts :: "eth_tx_attempt list"
  eth_receipts :: "eth_receipt list"
  evm_heads :: "evm_head list"

text \<open>The row shape \<^verbatim>\<open>struct { RequestID string; Count int }\<close>.\<close>

record resp_count =
  RequestID :: string
  Count :: int

text \<open>
  \<^verbatim>\<open>SELECT k, count(k) ... GROUP BY k\<close> over the list of the values of \<open>k\<close> in the
  selected rows: one row a distinct value, with the number of its occurrences. SQL leaves the
  order of the groups open; the model lists them in the order \<open>remdups\<close> gives.
\<close>

definition group_count :: "string list \<Rightarrow> resp_count list" where
  "group_count ks = map (\<lambda>k. \<lparr>RequestID = k, Count = int (count_list ks k)\<rparr>) (remdups ks)"

definition unconfirmed_states :: "string list" where
  "unconfirmed_states = [''unconfirmed'', ''unstarted'', ''in_progress'']"

definition unconfirmedQuery :: "database \<Rightarrow> resp_count list" where
  "unconfirmedQuery db =
     group_count
       [r. et \<leftarrow> eth_txes db,
           r \<leftarrow> (case tx_meta_RequestID et of None \<Rightarrow> [] | Some r \<Rightarrow> [r]),
           tx_state et \<in> set unconfirmed_states]"

text \<open>
  \<^verbatim>\<open>(SELECT number FROM evm_heads WHERE evm_chain_id = $1 ORDER BY number DESC LIMIT 1)\<close>:
  the greatest head number of the chain, NULL (here \<open>None\<close>) when the chain has no head.
\<close>

definition latest_head :: "database \<Rightarrow> int \<Rightarrow> int option" where
  "latest_head db chainID =
     (case [head_number h. h \<leftarrow> evm_heads db, head_evm_chain_id h = chainID] of
        [] \<Rightarrow> None
      | n # ns \<Rightarrow> Some (fold max ns n))"

text \<open>
  The join of the confirmed query, one element a joined row that passes the WHERE clause. A
  comparison with NULL is not true, so no row passes when the chain has no head.
\<close>

definition confirmed_rows :: "database \<Rightarrow> int \<Rightarrow> int \<Rightarrow> string list" where
  "confirmed_rows db chainID depth =
     [r. et \<leftarrow> eth_txes db,
         eta \<leftarrow> eth_tx_attempts db, tx_id et = eta_eth_tx_id eta,
         er \<leftarrow> eth_receipts db, eta_hash eta = er_tx_hash er,
         r \<leftarrow> (case tx_meta_RequestID et of None \<Rightarrow> [] | Some r \<Rightarrow> [r]),
         h \<leftarrow> (case latest_head db chainID of None \<Rightarrow> [] | Some h \<Rightarrow> [h]),
         er_block_number er \<ge> h - depth]"

definition confirmedQuery :: "database \<Rightarrow> int \<Rightarrow> int \<Rightarrow> resp_count list" where
  "confirmedQuery db chainID depth = group_count (confirmed_rows db chainID depth)"

text \<open>
  \<^verbatim>\<open>pg.Q\<close>: the handle of the store. \<open>q_err\<close> is the error \<^verbatim>\<open>Select\<close> fails with
  (no connection, a timeout, ...), \<open>None\<close> when the query runs.
\<close>

record Q =
  q_db :: database
  q_err :: "err option"

definition getRespCounts :: "Q \<Rightarrow> 64 word \<Rightarrow> 32 word \<Rightarrow> event list \<times> (err + resp_count list)" where
  "getRespCounts q chainID evmFinalityDepth =
     ([Select chainID evmFinalityDepth],
      (case q_err q of
         Some e \<Rightarrow> Inl e
       | None \<Rightarrow>
           Inr (unconfirmedQuery (q_db q)
                @ confirmedQuery (q_db q) (uint chainID) (uint evmFinalityDepth))))"

section \<open>GetStartingResponseCountsV1 and GetStartingResponseCountsV2\<close>

type_synonym reqID32 = "byte list"

fun countsV1_loop ::
  "logger \<Rightarrow> resp_count list \<Rightarrow> (reqID32 \<rightharpoonup> 64 word) \<Rightarrow> event list \<times> (panic + (reqID32 \<rightharpoonup> 64 word))" where
  "countsV1_loop l [] respCounts = ([], Inr respCounts)"
| "countsV1_loop l (c # cs) respCounts =
     (let req = strings_Replace_del (RequestID c) dquote 2 in
      case slice_from req 2 of
        Inl p \<Rightarrow> ([], Inl p)
      | Inr s \<Rightarrow>
         (case hex_DecodeString s of
            Inl e \<Rightarrow>
              (case countsV1_loop l cs respCounts of
                 (evs, r) \<Rightarrow>
                   (Errorw l ''Unable to read fulfillment''
                      [(''err'', LErr e), (''reqID'', LStr (RequestID c))] # evs, r))
          | Inr b \<Rightarrow>
              countsV1_loop l cs
                (respCounts(go_copy (replicate 32 0) b \<mapsto> word_of_int (Count c)))))"

definition GetStartingResponseCountsV1 ::
  "Q \<Rightarrow> logger \<Rightarrow> 64 word \<Rightarrow> 32 word \<Rightarrow> event list \<times> (panic + (reqID32 \<rightharpoonup> 64 word))" where
  "GetStartingResponseCountsV1 q l chainID evmFinalityDepth =
     (case getRespCounts q chainID evmFinalityDepth of
        (evs, Inl e) \<Rightarrow>
          (evs @ [Errorw l ''Unable to read previous confirmed fulfillments'' [(''err'', LErr e)]],
           Inr Map.empty)
      | (evs, Inr counts) \<Rightarrow>
          (case countsV1_loop l counts Map.empty of (evs', r) \<Rightarrow> (evs @ evs', r)))"

fun countsV2_loop ::
  "logger \<Rightarrow> resp_count list \<Rightarrow> (string \<rightharpoonup> 64 word) \<Rightarrow> event list \<times> (panic + (string \<rightharpoonup> 64 word))" where
  "countsV2_loop l [] respCounts = ([], Inr respCounts)"
| "countsV2_loop l (c # cs) respCounts =
     (let req = strings_Replace_del (RequestID c) dquote 2 in
      case slice_from req 2 of
        Inl p \<Rightarrow> ([], Inl p)
      | Inr s \<Rightarrow>
         (case hex_DecodeString s of
            Inl e \<Rightarrow>
              (case countsV2_loop l cs respCounts of
                 (evs, r) \<Rightarrow>
                   (Errorw l ''Unable to read fulfillment''
                      [(''err'', LErr e), (''reqID'', LStr (RequestID c))] # evs, r))
          | Inr b \<Rightarrow>
              countsV2_loop l cs
                (respCounts(big_String (big_SetBytes b) \<mapsto> word_of_int (Count c)))))"

definition GetStartingResponseCountsV2 ::
  "Q \<Rightarrow> logger \<Rightarrow> 64 word \<Rightarrow> 32 word \<Rightarrow> event list \<times> (panic + (string \<rightharpoonup> 64 word))" where
  "GetStartingResponseCountsV2 q l chainID evmFinalityDepth =
     (case getRespCounts q chainID evmFinalityDepth of
        (evs, Inl e) \<Rightarrow>
          (evs @ [Errorw l ''Unable to read previous confirmed fulfillments'' [(''err'', LErr e)]],
           Inr Map.empty)
      | (evs, Inr counts) \<Rightarrow>
          (case countsV2_loop l counts Map.empty of (evs', r) \<Rightarrow> (evs @ evs', r)))"


section \<open>The delegate: ServicesForSpec\<close>

record VRFSpec =
  EVMChainID :: int
  CoordinatorAddress :: address

record PipelineSpec =
  DotDagSource :: string

text \<open>A task of the compiled pipeline; the delegate looks at its dynamic type only.\<close>

datatype Task = VRFTask | VRFTaskV2 | OtherTask string

record Pipeline =
  Tasks :: "Task list"

record Job =
  ID :: int
  ExternalJobID :: string
  VRFSpec :: "VRFSpec option"
  PipelineSpec :: "PipelineSpec option"

record Client =
  client_ChainID :: nat

record Config =
  EvmFinalityDepth :: "32 word"

record Chain =
  chain_Client :: Client
  chain_Config :: Config
  chain_LogBroadcaster :: string
  chain_HeadBroadcaster :: string
  chain_TxManager :: string

text \<open>A contract binding: the address it was made for and the client it calls through.\<close>

record binding =
  b_address :: address
  b_client :: Client

text \<open>
  The packages the delegate calls and that lie outside these sources, as parameters: the
  compilation of the pipeline (\<^verbatim>\<open>jb.PipelineSpec.Pipeline()\<close>), the constructors of the
  three contract bindings and the contract call \<^verbatim>\<open>LINKETHFEED\<close>. Each returns a value or
  an error.
\<close>

record collaborators =
  e_Pipeline :: "PipelineSpec \<Rightarrow> err + Pipeline"
  e_NewVRFCoordinator :: "address \<Rightarrow> Client \<Rightarrow> err + binding"
  e_NewVRFCoordinatorV2 :: "address \<Rightarrow> Client \<Rightarrow> err + binding"
  e_LINKETHFEED :: "binding \<Rightarrow> err + address"
  e_NewAggregatorV3Interface :: "address \<Rightarrow> Client \<Rightarrow> err + binding"

record Delegate =
  d_q :: Q
  d_pr :: string
  d_porm :: string
  d_ks :: string
  d_cc :: "int \<Rightarrow> err + Chain"
  d_lggr :: logger

text \<open>
  The two listeners, with the fields the delegate fills from its arguments. The fields it
  fills with fresh empty objects (\<^verbatim>\<open>reqLogs\<close>, \<^verbatim>\<open>chStop\<close>, \<^verbatim>\<open>waitOnStop\<close>,
  \<^verbatim>\<open>newHead\<close>, \<^verbatim>\<open>blockNumberToReqID\<close>, \<^verbatim>\<open>reqAdded\<close>, \<^verbatim>\<open>wg\<close>) carry no data.
\<close>

record listenerV1 =
  l1_cfg :: Config
  l1_l :: logger
  l1_headBroadcaster :: string
  l1_logBroadcaster :: string
  l1_q :: Q
  l1_txm :: string
  l1_coordinator :: binding
  l1_pipelineRunner :: string
  l1_gethks :: string
  l1_job :: Job
  l1_respCount :: "reqID32 \<rightharpoonup> 64 word"

record listenerV2 =
  l2_cfg :: Config
  l2_l :: logger
  l2_ethClient :: Client
  l2_logBroadcaster :: string
  l2_q :: Q
  l2_coordinator :: binding
  l2_aggregator :: binding
  l2_txm :: string
  l2_pipelineRunner :: string
  l2_gethks :: string
  l2_job :: Job
  l2_respCount :: "string \<rightharpoonup> 64 word"
  l2_headBroadcaster :: string

datatype job_ServiceCtx = ListenerV1 listenerV1 | ListenerV2 listenerV2

text \<open>
  The result of a call: the calls made, then a panic or the returned pair, \<open>Inl\<close> for
  \<^verbatim>\<open>(nil, err)\<close> and \<open>Inr\<close> for \<^verbatim>\<open>(services, nil)\<close>.
\<close>

type_synonym services_result = "event list \<times> (panic + (err + job_ServiceCtx list))"

text \<open>\<^verbatim>\<open>chain.Client().ChainID().Uint64()\<close>: the low 64 bits of the chain identifier.\<close>

definition ChainID_Uint64 :: "Client \<Rightarrow> 64 word" where
  "ChainID_Uint64 c = of_nat (client_ChainID c)"

text \<open>The loop \<^verbatim>\<open>for _, task := range pl.Tasks\<close> with its two returning branches.\<close>

fun tasks_loop ::
  "collaborators \<Rightarrow> Delegate \<Rightarrow> Job \<Rightarrow> Chain \<Rightarrow> binding \<Rightarrow> binding \<Rightarrow> logger \<Rightarrow> logger \<Rightarrow>
   Task list \<Rightarrow> services_result" where
  "tasks_loop env d jb chain coordinator coordinatorV2 lV1 lV2 [] =
     ([], Inr (Inl (ErrorNew ''invalid job spec expected a vrf task'')))"
| "tasks_loop env d jb chain coordinator coordinatorV2 lV1 lV2 (task # tasks) =
     (if task = VRFTaskV2 then
        (case e_LINKETHFEED env coordinatorV2 of
           Inl e \<Rightarrow> ([LINKETHFEED (b_address coordinatorV2)], Inr (Inl e))
         | Inr linkEthFeedAddress \<Rightarrow>
            (case e_NewAggregatorV3Interface env linkEthFeedAddress (chain_Client chain) of
               Inl e \<Rightarrow>
                 ([LINKETHFEED (b_address coordinatorV2),
                   NewAggregatorV3Interface linkEthFeedAddress], Inr (Inl e))
             | Inr aggregator \<Rightarrow>
                (case GetStartingResponseCountsV2 (d_q d) lV2
                        (ChainID_Uint64 (chain_Client chain)) (EvmFinalityDepth (chain_Config chain)) of
                   (evs, Inl p) \<Rightarrow>
                     ([LINKETHFEED (b_address coordinatorV2),
                       NewAggregatorV3Interface linkEthFeedAddress] @ evs, Inl p)
                 | (evs, Inr counts) \<Rightarrow>
                     ([LINKETHFEED (b_address coordinatorV2),
                       NewAggregatorV3Interface linkEthFeedAddress] @ evs,
                      Inr (Inr [ListenerV2
                        \<lparr>l2_cfg = chain_Config chain,
                         l2_l = lV2,
                         l2_ethClient = chain_Client chain,
                         l2_logBroadcaster = chain_LogBroadcaster chain,
                         l2_q = d_q d,
                         l2_coordinator = coordinatorV2,
                         l2_aggregator = aggregator,
                         l2_txm = chain_TxManager chain,
                         l2_pipelineRunner = d_pr d,
                         l2_gethks = d_ks d,
                         l2_job = jb,
                         l2_respCount = counts,
                         l2_headBroadcaster = chain_HeadBroadcaster chain\<rparr>])))))
      else if task = VRFTask then
        (case GetStartingResponseCountsV1 (d_q d) lV1
                (ChainID_Uint64 (chain_Client chain)) (EvmFinalityDepth (chain_Config chain)) of
           (evs, Inl p) \<Rightarrow> (evs, Inl p)
         | (evs, Inr counts) \<Rightarrow>
             (evs,
              Inr (Inr [ListenerV1
                \<lparr>l1_cfg = chain_Config chain,
                 l1_l = lV1,
                 l1_headBroadcaster = chain_HeadBroadcaster chain,
                 l1_logBroadcaster = chain_LogBroadcaster chain,
                 l1_q = d_q d,
                 l1_txm = chain_TxManager chain,
                 l1_coordinator = coordinator,
                 l1_pipelineRunner = d_pr d,
                 l1_gethks = d_ks d,
                 l1_job = jb,
                 l1_respCount = counts\<rparr>])))
      else tasks_loop env d jb chain coordinator coordinatorV2 lV1 lV2 tasks)"

text \<open>
  The error of the first check is made by \<^verbatim>\<open>errors.Errorf\<close>; its text ends with the
  printed job, which is left out here.
\<close>

definition expects_specs_error :: err where
  "expects_specs_error = ErrorNew ''vrf.Delegate expects a VRFSpec and PipelineSpec to be present''"

definition spec_loggers :: "Delegate \<Rightarrow> Job \<Rightarrow> VRFSpec \<Rightarrow> logger \<times> logger" where
  "spec_loggers d jb vs =
     (let l = logger_With (d_lggr d)
                [(''jobID'', LInt (ID jb)),
                 (''externalJobID'', LStr (ExternalJobID jb)),
                 (''coordinatorAddress'', LStr (CoordinatorAddress vs))]
      in (logger_Named l ''VRFListener'', logger_Named l ''VRFListenerV2''))"

definition ServicesForSpec :: "collaborators \<Rightarrow> Delegate \<Rightarrow> Job \<Rightarrow> services_result" where
  "ServicesForSpec env d jb =
     (case (VRFSpec jb, PipelineSpec jb) of
        (Some vs, Some ps) \<Rightarrow>
          (case e_Pipeline env ps of
             Inl e \<Rightarrow> ([], Inr (Inl e))
           | Inr pl \<Rightarrow>
              (case d_cc d (EVMChainID vs) of
                 Inl e \<Rightarrow> ([ChainSetGet (EVMChainID vs)], Inr (Inl e))
               | Inr chain \<Rightarrow>
                  (case e_NewVRFCoordinator env (CoordinatorAddress vs) (chain_Client chain) of
                     Inl e \<Rightarrow>
                       ([ChainSetGet (EVMChainID vs),
                         NewVRFCoordinator (CoordinatorAddress vs)], Inr (Inl e))
                   | Inr coordinator \<Rightarrow>
                      (case e_NewVRFCoordinatorV2 env (CoordinatorAddress vs) (chain_Client chain) of
                         Inl e \<Rightarrow>
                           ([ChainSetGet (EVMChainID vs),
                             NewVRFCoordinator (CoordinatorAddress vs),
                             NewVRFCoordinatorV2 (CoordinatorAddress vs)], Inr (Inl e))
                       | Inr coordinatorV2 \<Rightarrow>
                          (case spec_loggers d jb vs of
                             (lV1, lV2) \<Rightarrow>
                               (case tasks_loop env d jb chain coordinator coordinatorV2 lV1 lV2 (Tasks pl) of
                                  (evs, r) \<Rightarrow>
                                    ([ChainSetGet (EVMChainID vs),
                                      NewVRFCoordinator (CoordinatorAddress vs),
                                      NewVRFCoordinatorV2 (CoordinatorAddress vs)] @ evs, r)))))))
      | _ \<Rightarrow> ([], Inr (Inl expects_specs_error)))"

section \<open>The service interfaces and the adapter\<close>

text \<open>
  A \<^verbatim>\<open>Service\<close> is its four methods. Each may read and change the state of the program,
  of type \<open>'w\<close>, and returns an error or nil (\<open>None\<close>).
\<close>

record 'w Service =
  Start :: "'w \<Rightarrow> err option \<times> 'w"
  Close :: "'w \<Rightarrow> err option \<times> 'w"
  Ready :: "'w \<Rightarrow> err option \<times> 'w"
  Healthy :: "'w \<Rightarrow> err option \<times> 'w"

text \<open>A \<^verbatim>\<open>context.Context\<close>, as far as a callee can observe it: cancelled or not.\<close>

record Context =
  ctx_cancelled :: bool

record 'w adapter =
  service :: "'w Service"

definition NewServiceCtx :: "'w Service \<Rightarrow> 'w adapter" where
  "NewServiceCtx service' = \<lparr>service = service'\<rparr>"

definition adapter_Start :: "'w adapter \<Rightarrow> Context \<Rightarrow> 'w \<Rightarrow> err option \<times> 'w" where
  "adapter_Start a ctx = Start (service a)"

definition adapter_Close :: "'w adapter \<Rightarrow> 'w \<Rightarrow> err option \<times> 'w" where
  "adapter_Close a = Close (service a)"

definition adapter_Ready :: "'w adapter \<Rightarrow> 'w \<Rightarrow> err option \<times> 'w" where
  "adapter_Ready a = Ready (service a)"

definition adapter_Healthy :: "'w adapter \<Rightarrow> 'w \<Rightarrow> err option \<times> 'w" where
  "adapter_Healthy a = Healthy (service a)"


section \<open>Reference encodings and observations used in the statements\<close>

text \<open>
  How an identifier reaches the store: the bytes printed in lowercase hexadecimal after
  \<open>0x\<close>, as a JSON string, so between double quotes.
\<close>

definition hex_digit :: "nat \<Rightarrow> char" where
  "hex_digit n = (if n < 10 then char_of (48 + n) else char_of (87 + n))"

definition hex_byte :: "byte \<Rightarrow> string" where
  "hex_byte b = [hex_digit (unat b div 16), hex_digit (unat b mod 16)]"

definition hex_EncodeToString :: "byte list \<Rightarrow> string" where
  "hex_EncodeToString bs = concat (map hex_byte bs)"

definition store_quoted :: "byte list \<Rightarrow> string" where
  "store_quoted bs = dquote # ''0x'' @ hex_EncodeToString bs @ [dquote]"

text \<open>
  The reference reading of bytes as a big-endian unsigned integer, and of a decimal string as
  a number.
\<close>

definition ref_big_endian_value :: "byte list \<Rightarrow> nat" where
  "ref_big_endian_value bs = (\<Sum>i<length bs. unat (bs ! i) * 256 ^ (length bs - 1 - i))"

definition ref_parse_decimal :: "string \<Rightarrow> nat" where
  "ref_parse_decimal s = foldl (\<lambda>acc c. acc * 10 + (of_char c - 48)) 0 s"

text \<open>The count a list of result rows gives for an identifier: the sum over its rows.\<close>

definition count_of :: "resp_count list \<Rightarrow> string \<Rightarrow> int" where
  "count_of rows r = sum_list (map Count (filter (\<lambda>c. RequestID c = r) rows))"

text \<open>
  The store after one more transaction is inserted, alone or with an attempt and the receipt
  of that attempt.
\<close>

definition insert_tx :: "database \<Rightarrow> eth_tx \<Rightarrow> database" where
  "insert_tx db et = db\<lparr>eth_txes := eth_txes db @ [et]\<rparr>"

definition insert_confirmed :: "database \<Rightarrow> eth_tx \<Rightarrow> eth_tx_attempt \<Rightarrow> eth_receipt \<Rightarrow> database" where
  "insert_confirmed db et eta er =
     db\<lparr>eth_txes := eth_txes db @ [et],
        eth_tx_attempts := eth_tx_attempts db @ [eta],
        eth_receipts := eth_receipts db @ [er]\<rparr>"

text \<open>The store with the chain of every transaction replaced.\<close>

definition relabel_chains :: "(eth_tx \<Rightarrow> int) \<Rightarrow> database \<Rightarrow> database" where
  "relabel_chains f db = db\<lparr>eth_txes := map (\<lambda>et. et\<lparr>tx_evm_chain_id := f et\<rparr>) (eth_txes db)\<rparr>"

text \<open>
  What one combination of a transaction, an attempt and a receipt contributes to the confirmed
  query, given the latest head of the chain.
\<close>

definition joined :: "int option \<Rightarrow> int \<Rightarrow> eth_tx \<Rightarrow> eth_tx_attempt \<Rightarrow> eth_receipt \<Rightarrow> string list" where
  "joined head depth et eta er =
     (if tx_id et = eta_eth_tx_id eta \<and> eta_hash eta = er_tx_hash er then
        [r. r \<leftarrow> (case tx_meta_RequestID et of None \<Rightarrow> [] | Some r \<Rightarrow> [r]),
            h \<leftarrow> (case head of None \<Rightarrow> [] | Some h \<Rightarrow> [h]),
            er_block_number er \<ge> h - depth]
      else [])"

text \<open>The first task of a pipeline that is a VRF task of either version.\<close>

definition first_vrf_task :: "Task list \<Rightarrow> Task option" where
  "first_vrf_task tasks = find (\<lambda>task. task = VRFTaskV2 \<or> task = VRFTask) tasks"

datatype version = V1 | V2

fun listener_version :: "job_ServiceCtx \<Rightarrow> version" where
  "listener_version (ListenerV1 lsn) = V1"
| "listener_version (ListenerV2 lsn) = V2"

text \<open>The versions of the listeners a call returned, \<open>None\<close> when it returned none.\<close>

fun returned_versions :: "services_result \<Rightarrow> version list option" where
  "returned_versions (evs, Inr (Inr ls)) = Some (map listener_version ls)"
| "returned_versions (evs, Inr (Inl e)) = None"
| "returned_versions (evs, Inl p) = None"

definition no_vrf_task_error :: err where
  "no_vrf_task_error = ErrorNew ''invalid job spec expected a vrf task''"

text \<open>The rows a call of \<open>getRespCounts\<close> returned, none when it returned an error.\<close>

definition query_rows :: "event list \<times> (err + resp_count list) \<Rightarrow> resp_count list" where
  "query_rows res = (case snd res of Inl e \<Rightarrow> [] | Inr rows \<Rightarrow> rows)"

section \<open>Example stores, chains and jobs\<close>

definition l0 :: logger where
  "l0 = \<lparr>lg_names = [''VRFListener''], lg_fields = []\<rparr>"

definition reqA :: "byte list" where "reqA = replicate 31 0 @ [0xaa]"
definition reqB :: "byte list" where "reqB = replicate 31 0 @ [0xbb]"
definition reqC :: "byte list" where "reqC = replicate 31 0 @ [0xcc]"
definition req_one :: "byte list" where "req_one = replicate 31 0 @ [1]"

definition tagged_tx :: "int \<Rightarrow> int \<Rightarrow> string \<Rightarrow> string \<Rightarrow> eth_tx" where
  "tagged_tx i chain st r =
     \<lparr>tx_id = i, tx_state = st, tx_meta_RequestID = Some r, tx_evm_chain_id = chain\<rparr>"

text \<open>
  In flight: two transactions of A and one of B. Confirmed, all within 50 blocks of the head
  1000 of chain 1: one of A and three of C.
\<close>

definition p4_db :: database where
  "p4_db =
     \<lparr>eth_txes =
        [tagged_tx 1 1 ''unconfirmed'' (store_quoted reqA),
         tagged_tx 2 1 ''in_progress'' (store_quoted reqA),
         tagged_tx 3 1 ''unstarted'' (store_quoted reqB),
         tagged_tx 4 1 ''confirmed'' (store_quoted reqA),
         tagged_tx 5 1 ''confirmed'' (store_quoted reqC),
         tagged_tx 6 1 ''confirmed'' (store_quoted reqC),
         tagged_tx 7 1 ''confirmed'' (store_quoted reqC)],
      eth_tx_attempts =
        [\<lparr>eta_eth_tx_id = 4, eta_hash = ''h4''\<rparr>, \<lparr>eta_eth_tx_id = 5, eta_hash = ''h5''\<rparr>,
         \<lparr>eta_eth_tx_id = 6, eta_hash = ''h6''\<rparr>, \<lparr>eta_eth_tx_id = 7, eta_hash = ''h7''\<rparr>],
      eth_receipts =
        [\<lparr>er_tx_hash = ''h4'', er_block_number = 990\<rparr>,
         \<lparr>er_tx_hash = ''h5'', er_block_number = 950\<rparr>,
         \<lparr>er_tx_hash = ''h6'', er_block_number = 1000\<rparr>,
         \<lparr>er_tx_hash = ''h7'', er_block_number = 999\<rparr>],
      evm_heads =
        [\<lparr>head_evm_chain_id = 1, head_number = 999\<rparr>,
         \<lparr>head_evm_chain_id = 1, head_number = 1000\<rparr>,
         \<lparr>head_evm_chain_id = 137, head_number = 1000\<rparr>]\<rparr>"

definition p4_store :: Q where
  "p4_store = \<lparr>q_db = p4_db, q_err = None\<rparr>"

definition failing_store :: Q where
  "failing_store = \<lparr>q_db = p4_db, q_err = Some (External ''connection refused'')\<rparr>"

text \<open>A store whose second tagged transaction carries the JSON string \<open>"7"\<close>.\<close>

definition short_tag :: string where
  "short_tag = [dquote, CHR ''7'', dquote]"

definition short_db :: database where
  "short_db =
     \<lparr>eth_txes =
        [tagged_tx 1 1 ''unconfirmed'' (store_quoted reqA),
         tagged_tx 2 1 ''unconfirmed'' short_tag,
         tagged_tx 3 1 ''unstarted'' (store_quoted reqB)],
      eth_tx_attempts = [],
      eth_receipts = [],
      evm_heads = [\<lparr>head_evm_chain_id = 1, head_number = 1000\<rparr>]\<rparr>"

definition short_store :: Q where
  "short_store = \<lparr>q_db = short_db, q_err = None\<rparr>"

text \<open>
  The scenario of one request in flight on chain 137, head 1000, nothing confirmed.
\<close>

definition scenario_store :: "string \<Rightarrow> Q" where
  "scenario_store r =
     \<lparr>q_db =
        \<lparr>eth_txes = [tagged_tx 1 137 ''unconfirmed'' r],
         eth_tx_attempts = [],
         eth_receipts = [],
         evm_heads = [\<lparr>head_evm_chain_id = 137, head_number = 1000\<rparr>]\<rparr>,
      q_err = None\<rparr>"

definition chain0 :: Chain where
  "chain0 =
     \<lparr>chain_Client = \<lparr>client_ChainID = 1\<rparr>,
      chain_Config = \<lparr>EvmFinalityDepth = 50\<rparr>,
      chain_LogBroadcaster = ''logBroadcaster'',
      chain_HeadBroadcaster = ''headBroadcaster'',
      chain_TxManager = ''txm''\<rparr>"

definition env0 :: collaborators where
  "env0 =
     \<lparr>e_Pipeline = (\<lambda>ps.
        if DotDagSource ps = ''v2'' then Inr \<lparr>Tasks = [OtherTask ''decode_log'', VRFTaskV2, OtherTask ''submit_tx'']\<rparr>
        else if DotDagSource ps = ''v1'' then Inr \<lparr>Tasks = [OtherTask ''decode_log'', VRFTask, OtherTask ''submit_tx'']\<rparr>
        else if DotDagSource ps = ''v1 then v2'' then Inr \<lparr>Tasks = [VRFTask, VRFTaskV2]\<rparr>
        else Inr \<lparr>Tasks = [OtherTask ''decode_log'', OtherTask ''submit_tx'']\<rparr>),
      e_NewVRFCoordinator = (\<lambda>a c. Inr \<lparr>b_address = a, b_client = c\<rparr>),
      e_NewVRFCoordinatorV2 = (\<lambda>a c. Inr \<lparr>b_address = a, b_client = c\<rparr>),
      e_LINKETHFEED = (\<lambda>b. Inr ''0xfeed''),
      e_NewAggregatorV3Interface = (\<lambda>a c. Inr \<lparr>b_address = a, b_client = c\<rparr>)\<rparr>"

definition delegate0 :: "Q \<Rightarrow> Delegate" where
  "delegate0 store =
     \<lparr>d_q = store, d_pr = ''runner'', d_porm = ''porm'', d_ks = ''keystore'',
      d_cc = (\<lambda>i. if i = 1 then Inr chain0 else Inl (External ''chain not found'')),
      d_lggr = \<lparr>lg_names = [], lg_fields = []\<rparr>\<rparr>"

definition vrf_spec0 :: VRFSpec where
  "vrf_spec0 = \<lparr>EVMChainID = 1, CoordinatorAddress = ''0xc0''\<rparr>"

definition job0 :: "string \<Rightarrow> Job" where
  "job0 dag =
     \<lparr>ID = 1, ExternalJobID = ''job'', VRFSpec = Some vrf_spec0,
      PipelineSpec = Some \<lparr>DotDagSource = dag\<rparr>\<rparr>"

definition job_without_spec :: Job where
  "job_without_spec =
     \<lparr>ID = 2, ExternalJobID = ''job'', VRFSpec = None,
      PipelineSpec = Some \<lparr>DotDagSource = ''v2''\<rparr>\<rparr>"



definition new_attempt :: eth_tx_attempt where
  "new_attempt = \<lparr>eta_eth_tx_id = 8, eta_hash = ''h8''\<rparr>"

definition new_receipt :: eth_receipt where
  "new_receipt = \<lparr>er_tx_hash = ''h8'', er_block_number = 0\<rparr>"

definition other_chain_tx :: eth_tx where
  "other_chain_tx = tagged_tx 9 56 ''unconfirmed'' (store_quoted reqB)"

definition other_chain_confirmed_tx :: eth_tx where
  "other_chain_confirmed_tx = tagged_tx 8 56 ''confirmed'' (store_quoted reqC)"

text \<open>The collaborators when the contract call \<^verbatim>\<open>LINKETHFEED\<close> fails.\<close>

definition env_feed_down :: collaborators where
  "env_feed_down = env0\<lparr>e_LINKETHFEED := (\<lambda>b. Inl (External ''feed call failed''))\<rparr>"

text \<open>A row whose payload is two bytes long.\<close>

definition short_payload_row :: resp_count where
  "short_payload_row = \<lparr>RequestID = dquote # ''0x0102'' @ [dquote], Count = 5\<rparr>"

section \<open>Hexadecimal and decimal encodings\<close>

lemma fromHexChar_hex_digit: "n < 16 \<Longrightarrow> fromHexChar (hex_digit n) = Some (of_nat n)"
  by (auto simp: fromHexChar_def hex_digit_def Let_def)


lemma of_char_hex_digit: "n < 16 \<Longrightarrow> (of_char (hex_digit n) :: nat) = (if n < 10 then 48 + n else 87 + n)"
  by (simp add: hex_digit_def)

lemma hex_digit_not_dquote: "n < 16 \<Longrightarrow> hex_digit n \<noteq> dquote"
proof
  assume n: "n < 16" and eq: "hex_digit n = dquote"
  have "(of_char (hex_digit n) :: nat) = of_char dquote" by (simp add: eq)
  with n show False by (simp add: of_char_hex_digit dquote_def split: if_splits)
qed

lemma hi_nibble: "(of_nat (unat b div 16) :: byte) = drop_bit 4 b"
  by (simp add: drop_bit_eq_div unat_div word_arith_nat_div) 

lemma lo_nibble: "(of_nat (unat b mod 16) :: byte) = take_bit 4 b"
  by (simp add: take_bit_eq_mod word_arith_nat_mod) 

lemma nibbles_join: "push_bit 4 (of_nat (unat b div 16)) OR of_nat (unat b mod 16) = (b :: byte)"
  unfolding hi_nibble lo_nibble
  by (rule bit_eqI) (auto simp: bit_or_iff bit_push_bit_iff bit_drop_bit_eq bit_take_bit_iff)

lemma byte_hi_lt: "unat (b :: byte) div 16 < 16"
  using unsigned_less [of b, where ?'a = nat] by simp

lemma hex_DecodeString_hex_byte:
  "hex_DecodeString (hex_byte b @ rest) =
     (case hex_DecodeString rest of Inl e \<Rightarrow> Inl e | Inr bs \<Rightarrow> Inr (b # bs))"
  by (simp add: hex_byte_def fromHexChar_hex_digit byte_hi_lt nibbles_join split: sum.split)

lemma hex_round_trip: "hex_DecodeString (hex_EncodeToString bs) = Inr bs"
  by (induction bs) (simp_all add: hex_EncodeToString_def hex_DecodeString_hex_byte)

lemma dquote_notin_hex: "dquote \<notin> set (hex_EncodeToString bs)"
proof (induction bs)
  case Nil
  show ?case by (simp add: hex_EncodeToString_def)
next
  case (Cons b bs)
  have "hex_digit (unat b div 16) \<noteq> dquote" "hex_digit (unat b mod 16) \<noteq> dquote"
    by (simp_all add: hex_digit_not_dquote byte_hi_lt)
  with Cons show ?case by (auto simp: hex_EncodeToString_def hex_byte_def)
qed

lemma strings_Replace_del_last:
  "old \<notin> set s \<Longrightarrow> strings_Replace_del (s @ [old]) old (Suc n) = s"
  by (induction s) (auto, cases n, auto)

lemma unquote_store_quoted:
  "strings_Replace_del (store_quoted bs) dquote 2 = ''0x'' @ hex_EncodeToString bs"
proof -
  have "dquote \<notin> set (''0x'' @ hex_EncodeToString bs)"
    using dquote_notin_hex [of bs] by (simp add: dquote_def)
  then have "strings_Replace_del ((''0x'' @ hex_EncodeToString bs) @ [dquote]) dquote (Suc 0)
      = ''0x'' @ hex_EncodeToString bs"
    by (rule strings_Replace_del_last)
  then show ?thesis
    by (simp add: store_quoted_def numeral_2_eq_2)
qed

lemma go_copy_full: "length b = length dst \<Longrightarrow> go_copy dst b = b"
  by (simp add: go_copy_def)

lemma decode_store_quoted:
  "slice_from (strings_Replace_del (store_quoted bs) dquote 2) 2 = Inr (hex_EncodeToString bs)"
  by (simp add: unquote_store_quoted slice_from_def)


lemma big_SetBytes_snoc: "big_SetBytes (bs @ [b]) = big_SetBytes bs * 256 + unat b"
  by (simp add: big_SetBytes_def)

lemma ref_big_endian_value_snoc:
  "ref_big_endian_value (bs @ [b]) = ref_big_endian_value bs * 256 + unat b"
proof -
  have "(\<Sum>i<length bs. unat ((bs @ [b]) ! i) * 256 ^ (length bs - i))
      = (\<Sum>i<length bs. (unat (bs ! i) * 256 ^ (length bs - 1 - i)) * 256)"
  proof (rule sum.cong)
    fix i assume "i \<in> {..<length bs}"
    then have i: "i < length bs" by simp
    then have "length bs - i = Suc (length bs - 1 - i)" by simp
    with i show "unat ((bs @ [b]) ! i) * 256 ^ (length bs - i)
        = (unat (bs ! i) * 256 ^ (length bs - 1 - i)) * 256"
      by (simp add: nth_append)
  qed simp
  then show ?thesis
    by (simp add: ref_big_endian_value_def sum_distrib_right)
qed

lemma big_SetBytes_ref: "big_SetBytes bs = ref_big_endian_value bs"
proof (induction bs rule: rev_induct)
  case Nil
  show ?case by (simp add: big_SetBytes_def ref_big_endian_value_def)
next
  case (snoc b bs)
  then show ?case by (simp add: big_SetBytes_snoc ref_big_endian_value_snoc)
qed

lemma ref_parse_decimal_snoc:
  "ref_parse_decimal (s @ [c]) = ref_parse_decimal s * 10 + (of_char c - 48)"
  by (simp add: ref_parse_decimal_def)

lemma of_char_digit_char: "d < 10 \<Longrightarrow> (of_char (digit_char d) :: nat) - 48 = d"
  by (simp add: digit_char_def)

lemma ref_parse_decimal_big_String: "ref_parse_decimal (big_String n) = n"
proof (induction n rule: big_String.induct)
  case (1 n)
  show ?case
  proof (cases "n < 10")
    case True
    then show ?thesis
      by (simp add: big_String.simps [of n] ref_parse_decimal_def of_char_digit_char)
  next
    case False
    with 1 have "ref_parse_decimal (big_String (n div 10)) = n div 10" by simp
    with False show ?thesis
      by (simp add: big_String.simps [of n] ref_parse_decimal_snoc of_char_digit_char)
  qed
qed

section \<open>Counting the rows of the two queries\<close>

lemma filter_eq_distinct:
  "distinct xs \<Longrightarrow> filter (\<lambda>k. k = r) xs = (if r \<in> set xs then [r] else [])"
  by (induction xs) auto

lemma count_of_group_count: "count_of (group_count ks) r = int (count_list ks r)"
proof -
  have "count_of (group_count ks) r
      = sum_list (map (\<lambda>k. int (count_list ks k)) (filter (\<lambda>k. k = r) (remdups ks)))"
    by (simp add: count_of_def group_count_def filter_map comp_def)
  also have "\<dots> = int (count_list ks r)"
    by (simp add: filter_eq_distinct count_list_0_iff)
  finally show ?thesis .
qed

lemma count_of_append: "count_of (xs @ ys) r = count_of xs r + count_of ys r"
  by (simp add: count_of_def)

lemma count_list_concat_map:
  "count_list (concat (map f xs)) r = sum_list (map (\<lambda>x. count_list (f x) r) xs)"
  by (induction xs) simp_all

lemma count_list_append: "count_list (xs @ ys) r = count_list xs r + count_list ys r"
  by (induction xs) simp_all

lemma unconfirmed_insert_tx:
  assumes "tx_meta_RequestID et = Some r" "tx_state et \<in> set unconfirmed_states"
  shows "count_of (unconfirmedQuery (insert_tx db et)) r = count_of (unconfirmedQuery db) r + 1"
  using assms
  by (simp add: unconfirmedQuery_def count_of_group_count insert_tx_def count_list_append)

lemma confirmed_rows_joined:
  "confirmed_rows db chainID depth =
     concat (map (\<lambda>et. concat (map (\<lambda>eta. concat (map (\<lambda>er.
        joined (latest_head db chainID) depth et eta er) (eth_receipts db))) (eth_tx_attempts db))) (eth_txes db))"
  unfolding confirmed_rows_def joined_def
  by (intro arg_cong [where f = concat] map_cong refl) (auto intro!: arg_cong [where f = concat] map_cong)


lemma sum_list_zero: "(\<And>x. x \<in> set xs \<Longrightarrow> f x = (0::nat)) \<Longrightarrow> sum_list (map f xs) = 0"
  by (induction xs) simp_all

lemma sum_list_same:
  "(\<And>x. x \<in> set xs \<Longrightarrow> f x = (g x :: nat)) \<Longrightarrow> sum_list (map f xs) = sum_list (map g xs)"
  by (induction xs) simp_all

lemma count_joined_new:
  assumes link: "eta_eth_tx_id eta = tx_id et" "er_tx_hash er = eta_hash eta"
    and fresh_id: "\<forall>t\<in>set (eth_txes db). tx_id t \<noteq> tx_id et"
    and fresh_att: "\<forall>a\<in>set (eth_tx_attempts db). eta_eth_tx_id a \<noteq> tx_id et \<and> eta_hash a \<noteq> eta_hash eta"
    and fresh_rc: "\<forall>x\<in>set (eth_receipts db). er_tx_hash x \<noteq> eta_hash eta"
  shows "count_list (confirmed_rows (insert_confirmed db et eta er) chainID depth) r
       = count_list (confirmed_rows db chainID depth) r
         + count_list (joined (latest_head db chainID) depth et eta er) r"
proof -
  define c where "c t a x = count_list (joined (latest_head db chainID) depth t a x) r" for t a x
  let ?txs = "eth_txes db" and ?atts = "eth_tx_attempts db" and ?rcs = "eth_receipts db"
  have head: "latest_head (insert_confirmed db et eta er) chainID = latest_head db chainID"
    by (simp add: latest_head_def insert_confirmed_def)
  have old_tx_new_att: "c t eta x = 0" if "t \<in> set ?txs" for t x
    using that fresh_id link by (auto simp: c_def joined_def)
  have new_tx_old_att: "c et a x = 0" if "a \<in> set ?atts" for a x
    using that fresh_att by (auto simp: c_def joined_def)
  have new_att_old_rc: "c t eta x = 0" if "x \<in> set ?rcs" for t x
    using that fresh_rc by (auto simp: c_def joined_def)
  have old_att_new_rc: "c t a er = 0" if "a \<in> set ?atts" for t a
    using that fresh_att link by (auto simp: c_def joined_def)
  have row_old: "(\<Sum>x\<leftarrow>?rcs @ [er]. c t a x) = (\<Sum>x\<leftarrow>?rcs. c t a x)" if "a \<in> set ?atts" for t a
    using that by (simp add: old_att_new_rc)
  have row_new_old_tx: "(\<Sum>x\<leftarrow>?rcs @ [er]. c t eta x) = 0" if "t \<in> set ?txs" for t
    using that by (simp add: old_tx_new_att sum_list_zero)
  have row_new: "(\<Sum>x\<leftarrow>?rcs @ [er]. c et eta x) = c et eta er"
    by (simp add: new_att_old_rc sum_list_zero)
  have atts_old: "(\<Sum>a\<leftarrow>?atts @ [eta]. \<Sum>x\<leftarrow>?rcs @ [er]. c t a x) = (\<Sum>a\<leftarrow>?atts. \<Sum>x\<leftarrow>?rcs. c t a x)"
    if "t \<in> set ?txs" for t
  proof -
    have "(\<Sum>a\<leftarrow>?atts. \<Sum>x\<leftarrow>?rcs @ [er]. c t a x) = (\<Sum>a\<leftarrow>?atts. \<Sum>x\<leftarrow>?rcs. c t a x)"
      by (rule sum_list_same) (simp_all add: old_att_new_rc)
    with row_new_old_tx [OF that] show ?thesis by simp
  qed
  have atts_new: "(\<Sum>a\<leftarrow>?atts @ [eta]. \<Sum>x\<leftarrow>?rcs @ [er]. c et a x) = c et eta er"
  proof -
    have "(\<Sum>a\<leftarrow>?atts. \<Sum>x\<leftarrow>?rcs @ [er]. c et a x) = 0"
      by (rule sum_list_zero) (simp add: new_tx_old_att sum_list_zero)
    with row_new show ?thesis by simp
  qed
  have "count_list (confirmed_rows (insert_confirmed db et eta er) chainID depth) r
      = (\<Sum>t\<leftarrow>?txs @ [et]. \<Sum>a\<leftarrow>?atts @ [eta]. \<Sum>x\<leftarrow>?rcs @ [er]. c t a x)"
    unfolding confirmed_rows_joined head
    by (simp add: insert_confirmed_def count_list_concat_map c_def comp_def)
  also have "\<dots> = (\<Sum>t\<leftarrow>?txs. \<Sum>a\<leftarrow>?atts @ [eta]. \<Sum>x\<leftarrow>?rcs @ [er]. c t a x) + c et eta er"
    using atts_new by simp
  also have "(\<Sum>t\<leftarrow>?txs. \<Sum>a\<leftarrow>?atts @ [eta]. \<Sum>x\<leftarrow>?rcs @ [er]. c t a x)
      = (\<Sum>t\<leftarrow>?txs. \<Sum>a\<leftarrow>?atts. \<Sum>x\<leftarrow>?rcs. c t a x)"
    by (rule sum_list_same) (simp_all only: atts_old)
  also have "(\<Sum>t\<leftarrow>?txs. \<Sum>a\<leftarrow>?atts. \<Sum>x\<leftarrow>?rcs. c t a x) = count_list (confirmed_rows db chainID depth) r"
    unfolding confirmed_rows_joined
    by (simp add: count_list_concat_map c_def comp_def)
  finally show ?thesis by (simp add: c_def)
qed


section \<open>The adapter\<close>

text \<open>
  C8. For every plain service \<open>s\<close> and every context \<open>ctx\<close>, cancelled or not, the adapter made
  by \<open>NewServiceCtx s\<close> forwards the four operations unchanged: its \<open>Start\<close> is the \<open>Start\<close>
  of \<open>s\<close> whatever the context, and its \<open>Close\<close>, \<open>Ready\<close> and \<open>Healthy\<close> are those of \<open>s\<close>.
\<close>

theorem adapter_forwards_all:
  "adapter_Start (NewServiceCtx s) ctx = Start s
   \<and> adapter_Close (NewServiceCtx s) = Close s
   \<and> adapter_Ready (NewServiceCtx s) = Ready s
   \<and> adapter_Healthy (NewServiceCtx s) = Healthy s"
  by (simp add: NewServiceCtx_def adapter_Start_def adapter_Close_def adapter_Ready_def
      adapter_Healthy_def)

section \<open>A failing store query\<close>

lemma getRespCounts_error:
  "q_err q = Some e \<Longrightarrow> getRespCounts q chainID depth = ([Select chainID depth], Inl e)"
  by (simp add: getRespCounts_def)

text \<open>
  C4. When the query of the store fails with an error \<open>e\<close>, \<open>GetStartingResponseCountsV1\<close> and
  \<open>GetStartingResponseCountsV2\<close> each return normally with the empty map; the error goes to
  the logger and nowhere else. The delegate, reaching a V1 task with such a store, still
  returns a listener, whose starting counts are empty.
\<close>

theorem starting_counts_query_error:
  assumes "q_err q = Some e"
  shows "GetStartingResponseCountsV1 q l chainID depth =
           ([Select chainID depth,
             Errorw l ''Unable to read previous confirmed fulfillments'' [(''err'', LErr e)]],
            Inr Map.empty)
       \<and> GetStartingResponseCountsV2 q l chainID depth =
           ([Select chainID depth,
             Errorw l ''Unable to read previous confirmed fulfillments'' [(''err'', LErr e)]],
            Inr Map.empty)
       \<and> returned_versions
            (tasks_loop env (d\<lparr>d_q := q\<rparr>) jb chain c1 c2 lV1 lV2 (VRFTask # ts)) = Some [V1]"
  using assms
  by (simp add: GetStartingResponseCountsV1_def GetStartingResponseCountsV2_def
      getRespCounts_error)

theorem starting_counts_query_error_witness:
  "q_err failing_store = Some (External ''connection refused'')
   \<and> GetStartingResponseCountsV1 failing_store l0 1 50 =
       ([Select 1 50,
         Errorw l0 ''Unable to read previous confirmed fulfillments''
           [(''err'', LErr (External ''connection refused''))]],
        Inr Map.empty)
   \<and> GetStartingResponseCountsV2 failing_store l0 1 50 =
       ([Select 1 50,
         Errorw l0 ''Unable to read previous confirmed fulfillments''
           [(''err'', LErr (External ''connection refused''))]],
        Inr Map.empty)"
proof -
  have h: "q_err failing_store = Some (External ''connection refused'')"
    by (simp add: failing_store_def)
  show ?thesis
    using h starting_counts_query_error [OF h, of l0 1 50] by simp
qed

section \<open>A job without its specifications\<close>

text \<open>
  C7. For every job whose \<open>VRFSpec\<close> is nil or whose \<open>PipelineSpec\<close> is nil, \<open>ServicesForSpec\<close>
  returns the error that both are expected, with no listener, and before any call is made: no
  lookup in the chain set, no binding, no query of the store, no line logged.
\<close>

theorem invalid_spec_fails_at_once:
  assumes "VRFSpec jb = None \<or> PipelineSpec jb = None"
  shows "ServicesForSpec env d jb = ([], Inr (Inl expects_specs_error))"
  using assms by (auto simp: ServicesForSpec_def split: option.splits)

theorem invalid_spec_fails_at_once_witness:
  "(VRFSpec job_without_spec = None \<or> PipelineSpec job_without_spec = None)
   \<and> ServicesForSpec env0 (delegate0 p4_store) job_without_spec = ([], Inr (Inl expects_specs_error))"
proof -
  have h: "VRFSpec job_without_spec = None \<or> PipelineSpec job_without_spec = None"
    by (simp add: job_without_spec_def)
  show ?thesis
    using h invalid_spec_fails_at_once [OF h, of env0 "delegate0 p4_store"] by simp
qed


section \<open>The decoding of a row\<close>

lemma countsV1_loop_store_quoted:
  "length bs = 32 \<Longrightarrow>
   countsV1_loop l (\<lparr>RequestID = store_quoted bs, Count = n\<rparr> # cs) m
     = countsV1_loop l cs (m(bs \<mapsto> word_of_int n))"
  by (simp add: decode_store_quoted hex_round_trip go_copy_full)

lemma countsV2_loop_store_quoted:
  "countsV2_loop l (\<lparr>RequestID = store_quoted bs, Count = n\<rparr> # cs) m
     = countsV2_loop l cs (m(big_String (big_SetBytes bs) \<mapsto> word_of_int n))"
  by (simp add: decode_store_quoted hex_round_trip)

lemma scenario_rows:
  "getRespCounts (scenario_store r) chainID depth =
     ([Select chainID depth], Inr [\<lparr>RequestID = r, Count = 1\<rparr>])"
  by (simp add: getRespCounts_def scenario_store_def unconfirmedQuery_def confirmedQuery_def
      confirmed_rows_def group_count_def tagged_tx_def unconfirmed_states_def)

lemma big_SetBytes_zeros: "big_SetBytes (replicate n 0 @ bs) = big_SetBytes bs"
  by (induction n) (simp_all add: big_SetBytes_def)

lemma req_one_value: "ref_big_endian_value req_one = 1"
  by (simp add: big_SetBytes_ref [symmetric] req_one_def big_SetBytes_zeros)
     (simp add: big_SetBytes_def)

lemma req_one_key: "big_String (ref_big_endian_value req_one) = ''1''"
  unfolding req_one_value by code_simp

text \<open>
  C3. For every identifier \<open>bs\<close> of 32 bytes, stored as \<open>0x\<close> and its lowercase hexadecimal
  digits between double quotes: the decoding step gives \<open>bs\<close> back as the key of the V1 map,
  and the key of the V2 map is the decimal string of the unsigned integer whose big-endian
  bytes are \<open>bs\<close>, a string that reads back as that integer. This holds for a row anywhere in
  the result of the query and for the store of the scenario, which holds one such request in
  flight; the identifier 1 gives the key \<open>1\<close>.
\<close>

theorem encoding_round_trip:
  assumes "length bs = 32"
  shows "GetStartingResponseCountsV1 (scenario_store (store_quoted bs)) l chainID depth
           = ([Select chainID depth], Inr [bs \<mapsto> 1])
       \<and> GetStartingResponseCountsV2 (scenario_store (store_quoted bs)) l chainID depth
           = ([Select chainID depth], Inr [big_String (ref_big_endian_value bs) \<mapsto> 1])
       \<and> ref_parse_decimal (big_String (ref_big_endian_value bs)) = ref_big_endian_value bs
       \<and> countsV1_loop l (\<lparr>RequestID = store_quoted bs, Count = n\<rparr> # cs) m1
           = countsV1_loop l cs (m1(bs \<mapsto> word_of_int n))
       \<and> countsV2_loop l (\<lparr>RequestID = store_quoted bs, Count = n\<rparr> # cs) m2
           = countsV2_loop l cs (m2(big_String (ref_big_endian_value bs) \<mapsto> word_of_int n))"
proof -
  have v1: "countsV1_loop l (\<lparr>RequestID = store_quoted bs, Count = k\<rparr> # rest) m
      = countsV1_loop l rest (m(bs \<mapsto> word_of_int k))" for k rest m
    using assms by (rule countsV1_loop_store_quoted)
  have v2: "countsV2_loop l (\<lparr>RequestID = store_quoted bs, Count = k\<rparr> # rest) m
      = countsV2_loop l rest (m(big_String (ref_big_endian_value bs) \<mapsto> word_of_int k))" for k rest m
    by (simp only: countsV2_loop_store_quoted big_SetBytes_ref)
  have "GetStartingResponseCountsV1 (scenario_store (store_quoted bs)) l chainID depth
      = ([Select chainID depth], Inr [bs \<mapsto> 1])"
    by (simp add: GetStartingResponseCountsV1_def scenario_rows v1 del: countsV1_loop.simps(2))
  moreover have "GetStartingResponseCountsV2 (scenario_store (store_quoted bs)) l chainID depth
      = ([Select chainID depth], Inr [big_String (ref_big_endian_value bs) \<mapsto> 1])"
    by (simp add: GetStartingResponseCountsV2_def scenario_rows v2 del: countsV2_loop.simps(2))
  ultimately show ?thesis
    by (simp only: v1 v2 ref_parse_decimal_big_String simp_thms)
qed

theorem encoding_round_trip_witness:
  "length req_one = 32
   \<and> GetStartingResponseCountsV1 (scenario_store (store_quoted req_one)) l0 137 50
       = ([Select 137 50], Inr [req_one \<mapsto> 1])
   \<and> GetStartingResponseCountsV2 (scenario_store (store_quoted req_one)) l0 137 50
       = ([Select 137 50], Inr [''1'' \<mapsto> 1])"
proof -
  have h: "length req_one = 32" by (simp add: req_one_def)
  note rt = encoding_round_trip [OF h, of l0 137 50 0 "[]" Map.empty Map.empty, unfolded req_one_key]
  from h rt show ?thesis by blast
qed

text \<open>
  C9. In the V1 encoding, for every row whose payload decodes to the bytes \<open>b\<close>, the key is 32
  bytes long and is \<open>b\<close> copied from its first byte: the first 32 bytes of \<open>b\<close>, followed by
  zero bytes when \<open>b\<close> is shorter. At every position below 32 the key holds the byte of \<open>b\<close>
  at that position, or zero past the end of \<open>b\<close>.
\<close>

theorem v1_key_is_copy:
  assumes "slice_from (strings_Replace_del (RequestID c) dquote 2) 2 = Inr s"
    and "hex_DecodeString s = Inr b"
    and "i < 32"
  shows "countsV1_loop l (c # cs) m
           = countsV1_loop l cs (m(take 32 b @ replicate (32 - length b) 0 \<mapsto> word_of_int (Count c)))
       \<and> length (take 32 b @ replicate (32 - length b) 0) = 32
       \<and> (take 32 b @ replicate (32 - length b) 0) ! i = (if i < length b then b ! i else 0)"
proof -
  have "go_copy (replicate 32 0) b = take 32 b @ replicate (32 - length b) 0"
    by (simp add: go_copy_def min_def)
  with assms show ?thesis
    by (auto simp: nth_append)
qed

theorem v1_key_is_copy_witness:
  "slice_from (strings_Replace_del (RequestID short_payload_row) dquote 2) 2 = Inr ''0102''
   \<and> hex_DecodeString ''0102'' = Inr [1, 2]
   \<and> (2 :: nat) < 32
   \<and> countsV1_loop l0 [short_payload_row] Map.empty = ([], Inr [[1, 2] @ replicate 30 0 \<mapsto> 5])
   \<and> ([1, 2] @ replicate 30 (0 :: byte)) ! 2 = 0"
proof -
  have h1: "slice_from (strings_Replace_del (RequestID short_payload_row) dquote 2) 2 = Inr ''0102''"
    by (simp add: short_payload_row_def slice_from_def numeral_2_eq_2 dquote_def)
  have h2: "hex_DecodeString ''0102'' = Inr [1, 2]"
    by (simp add: fromHexChar_def)
  have h3: "(2 :: nat) < 32" by simp
  show ?thesis
    using h1 h2 v1_key_is_copy [OF h1 h2 h3, of l0 "[]" Map.empty]
    by (simp add: short_payload_row_def)
qed


section \<open>The example stores evaluated\<close>

lemma store_quoted_inj: "store_quoted a = store_quoted b \<longleftrightarrow> a = b"
proof
  assume "store_quoted a = store_quoted b"
  then have "hex_EncodeToString a = hex_EncodeToString b" by (simp add: store_quoted_def)
  then have "hex_DecodeString (hex_EncodeToString a) = hex_DecodeString (hex_EncodeToString b)" by simp
  then show "a = b" by (simp add: hex_round_trip)
qed simp

lemma req_distinct:
  "reqA \<noteq> reqB" "reqA \<noteq> reqC" "reqB \<noteq> reqC" "reqB \<noteq> reqA" "reqC \<noteq> reqA" "reqC \<noteq> reqB"
  by (simp_all add: reqA_def reqB_def reqC_def)

lemma req_length: "length reqA = 32" "length reqB = 32" "length reqC = 32"
  by (simp_all add: reqA_def reqB_def reqC_def)

lemma p4_rows:
  "getRespCounts p4_store 1 50 =
     ([Select 1 50],
      Inr [\<lparr>RequestID = store_quoted reqA, Count = 2\<rparr>,
           \<lparr>RequestID = store_quoted reqB, Count = 1\<rparr>,
           \<lparr>RequestID = store_quoted reqA, Count = 1\<rparr>,
           \<lparr>RequestID = store_quoted reqC, Count = 3\<rparr>])"
  by (simp add: getRespCounts_def p4_store_def p4_db_def unconfirmedQuery_def confirmedQuery_def
      confirmed_rows_def latest_head_def group_count_def tagged_tx_def unconfirmed_states_def
      store_quoted_inj req_distinct)

lemma p4_keys_V2:
  "big_String (big_SetBytes reqA) = ''170''"
  "big_String (big_SetBytes reqB) = ''187''"
  "big_String (big_SetBytes reqC) = ''204''"
  by (simp_all add: reqA_def reqB_def reqC_def big_SetBytes_zeros)
     (simp add: big_SetBytes_def, code_simp)+

lemma p4_heads: "latest_head p4_db 1 = Some 1000" "latest_head p4_db 137 = Some 1000"
  by (simp_all add: latest_head_def p4_db_def)




lemma p4_counts_V1:
  "GetStartingResponseCountsV1 p4_store l 1 50
     = ([Select 1 50], Inr [reqA \<mapsto> 1, reqB \<mapsto> 1, reqC \<mapsto> 3])"
proof -
  have "[reqA \<mapsto> 2 :: 64 word, reqB \<mapsto> 1, reqA \<mapsto> 1, reqC \<mapsto> 3]
      = [reqA \<mapsto> 1, reqB \<mapsto> 1, reqC \<mapsto> 3]"
    by (rule ext) (simp add: req_distinct)
  then show ?thesis
    by (simp add: GetStartingResponseCountsV1_def p4_rows countsV1_loop_store_quoted req_length
        del: countsV1_loop.simps(2))
qed

lemma p4_counts_V2:
  "GetStartingResponseCountsV2 p4_store l 1 50
     = ([Select 1 50], Inr [''170'' \<mapsto> 1, ''187'' \<mapsto> 1, ''204'' \<mapsto> 3])"
proof -
  have "[''170'' \<mapsto> 2 :: 64 word, ''187'' \<mapsto> 1, ''170'' \<mapsto> 1, ''204'' \<mapsto> 3]
      = [''170'' \<mapsto> 1, ''187'' \<mapsto> 1, ''204'' \<mapsto> 3]"
    by (rule ext) simp
  then show ?thesis
    by (simp add: GetStartingResponseCountsV2_def p4_rows countsV2_loop_store_quoted p4_keys_V2
        del: countsV2_loop.simps(2))
qed

section \<open>Rows for one identifier from both halves of the query\<close>

text \<open>
  SQL fixes no order between the two halves of a \<^verbatim>\<open>UNION ALL\<close>. With the confirmed
  rows first, it is the in-flight count of A that stays.
\<close>

lemma p4_other_order:
  "countsV1_loop l
     [\<lparr>RequestID = store_quoted reqA, Count = 1\<rparr>,
      \<lparr>RequestID = store_quoted reqC, Count = 3\<rparr>,
      \<lparr>RequestID = store_quoted reqA, Count = 2\<rparr>,
      \<lparr>RequestID = store_quoted reqB, Count = 1\<rparr>] Map.empty
     = ([], Inr [reqA \<mapsto> 2, reqB \<mapsto> 1, reqC \<mapsto> 3])"
proof -
  have "[reqA \<mapsto> 1 :: 64 word, reqC \<mapsto> 3, reqA \<mapsto> 2, reqB \<mapsto> 1]
      = [reqA \<mapsto> 2, reqB \<mapsto> 1, reqC \<mapsto> 3]"
    by (rule ext) (simp add: req_distinct)
  then show ?thesis
    by (simp add: countsV1_loop_store_quoted req_length del: countsV1_loop.simps(2))
qed

text \<open>
  C1. The claim is that an identifier found both in flight and confirmed gets the sum of its
  two counts, so that in-flight rows A:2, B:1 and confirmed rows A:1, C:3 give A:3, B:1, C:3.
  On that store the query returns the four rows A:2, B:1, A:1, C:3, and each function stores
  the count of a row under its key, replacing what an earlier row put there: the result is
  A:1, B:1, C:3 in both encodings.
\<close>

theorem p4_last_row_wins:
  "getRespCounts p4_store 1 50 =
     ([Select 1 50],
      Inr [\<lparr>RequestID = store_quoted reqA, Count = 2\<rparr>,
           \<lparr>RequestID = store_quoted reqB, Count = 1\<rparr>,
           \<lparr>RequestID = store_quoted reqA, Count = 1\<rparr>,
           \<lparr>RequestID = store_quoted reqC, Count = 3\<rparr>])
   \<and> GetStartingResponseCountsV1 p4_store l0 1 50
       = ([Select 1 50], Inr [reqA \<mapsto> 1, reqB \<mapsto> 1, reqC \<mapsto> 3])
   \<and> GetStartingResponseCountsV2 p4_store l0 1 50
       = ([Select 1 50], Inr [''170'' \<mapsto> 1, ''187'' \<mapsto> 1, ''204'' \<mapsto> 3])"
  using p4_rows p4_counts_V1 [of l0] p4_counts_V2 [of l0] by blast

section \<open>Rows that cannot be decoded\<close>

lemma malformed_row_skipped_V1:
  assumes "slice_from (strings_Replace_del (RequestID c) dquote 2) 2 = Inr s"
    and "hex_DecodeString s = Inl e"
  shows "countsV1_loop l (c # cs) m =
           (Errorw l ''Unable to read fulfillment'' [(''err'', LErr e), (''reqID'', LStr (RequestID c))]
              # fst (countsV1_loop l cs m),
            snd (countsV1_loop l cs m))"
  using assms by (simp add: case_prod_unfold)

lemma countsV1_loop_returns:
  "(\<And>c. c \<in> set cs \<Longrightarrow> 2 \<le> length (strings_Replace_del (RequestID c) dquote 2))
   \<Longrightarrow> \<exists>evs m'. countsV1_loop l cs m = (evs, Inr m')"
proof (induction cs arbitrary: m)
  case Nil
  show ?case by simp
next
  case (Cons c cs)
  have len: "2 \<le> length (strings_Replace_del (RequestID c) dquote 2)"
    by (rule Cons.prems) simp
  have rest: "\<exists>evs m'. countsV1_loop l cs m0 = (evs, Inr m')" for m0
    by (rule Cons.IH) (simp add: Cons.prems)
  show ?case
  proof (cases "hex_DecodeString (drop 2 (strings_Replace_del (RequestID c) dquote 2))")
    case (Inl e)
    from rest [of m] obtain evs m' where "countsV1_loop l cs m = (evs, Inr m')" by blast
    with Inl len show ?thesis by (simp add: slice_from_def)
  next
    case (Inr b)
    with len rest show ?thesis by (simp add: slice_from_def)
  qed
qed

lemma short_tag_ne: "store_quoted bs \<noteq> short_tag" "short_tag \<noteq> store_quoted bs"
  by (simp_all add: store_quoted_def short_tag_def)

lemma short_rows:
  "getRespCounts short_store 1 50 =
     ([Select 1 50],
      Inr [\<lparr>RequestID = store_quoted reqA, Count = 1\<rparr>,
           \<lparr>RequestID = short_tag, Count = 1\<rparr>,
           \<lparr>RequestID = store_quoted reqB, Count = 1\<rparr>])"
  by (simp add: getRespCounts_def short_store_def short_db_def unconfirmedQuery_def confirmedQuery_def
      confirmed_rows_def latest_head_def group_count_def tagged_tx_def unconfirmed_states_def
      store_quoted_inj req_distinct short_tag_ne)

lemma short_tag_slice:
  "slice_from (strings_Replace_del short_tag dquote 2) 2 = Inl (SliceBoundsOutOfRange 2 1)"
  by (simp add: short_tag_def numeral_2_eq_2 slice_from_def)

text \<open>
  C2. The claim is that no single row stops the batch, rows shorter than two characters
  after the removal of the quotes included. A row whose hexadecimal payload does not decode
  is logged and skipped, and a map is returned whenever every row keeps at least two
  characters (lemmas \<open>malformed_row_skipped_V1\<close> and \<open>countsV1_loop_returns\<close>). On the
  store whose second row is the JSON string \<open>"7"\<close>
  the slice \<open>req[2:]\<close> panics: neither function returns a map, and the rows before and after
  are lost with it.
\<close>

theorem short_row_panics:
  "GetStartingResponseCountsV1 short_store l0 1 50 = ([Select 1 50], Inl (SliceBoundsOutOfRange 2 1))
   \<and> GetStartingResponseCountsV2 short_store l0 1 50 = ([Select 1 50], Inl (SliceBoundsOutOfRange 2 1))"
proof -
  have "countsV1_loop l0 (\<lparr>RequestID = short_tag, Count = 1\<rparr> # cs) m
      = ([], Inl (SliceBoundsOutOfRange 2 1))" for cs m
    by (simp add: short_tag_slice)
  moreover have "countsV2_loop l0 (\<lparr>RequestID = short_tag, Count = 1\<rparr> # cs) m
      = ([], Inl (SliceBoundsOutOfRange 2 1))" for cs m
    by (simp add: short_tag_slice)
  ultimately show ?thesis
    by (simp add: GetStartingResponseCountsV1_def GetStartingResponseCountsV2_def short_rows
        countsV1_loop_store_quoted countsV2_loop_store_quoted req_length
        del: countsV1_loop.simps(2) countsV2_loop.simps(2))
qed

section \<open>The finality window\<close>

lemma latest_head_insert_confirmed:
  "latest_head (insert_confirmed db et eta er) chainID = latest_head db chainID"
  by (simp add: latest_head_def insert_confirmed_def)




section \<open>The chain identifier\<close>

lemma concat_map_empty: "(\<And>x. x \<in> set xs \<Longrightarrow> f x = []) \<Longrightarrow> concat (map f xs) = []"
  by (induction xs) simp_all

lemma confirmed_rows_insert_tx:
  assumes "tx_id et \<notin> set (map eta_eth_tx_id (eth_tx_attempts db))"
  shows "confirmed_rows (insert_tx db et) chainID depth = confirmed_rows db chainID depth"
proof -
  have head: "latest_head (insert_tx db et) chainID = latest_head db chainID"
    by (simp add: latest_head_def insert_tx_def)
  have "joined H depth et eta er = []" if "eta \<in> set (eth_tx_attempts db)" for H eta er
    using that assms by (auto simp: joined_def)
  then have "concat (map (\<lambda>eta. concat (map (\<lambda>er. joined H depth et eta er) (eth_receipts db)))
                 (eth_tx_attempts db)) = []" for H
    by (intro concat_map_empty) simp
  then show ?thesis
    unfolding confirmed_rows_joined head by (simp add: insert_tx_def)
qed

lemma joined_relabel: "joined H depth (et\<lparr>tx_evm_chain_id := c\<rparr>) eta = joined H depth et eta"
  by (rule ext) (simp add: joined_def)

lemma latest_head_relabel: "latest_head (relabel_chains f db) chainID = latest_head db chainID"
  by (simp add: latest_head_def relabel_chains_def)

lemma confirmed_rows_relabel:
  "confirmed_rows (relabel_chains f db) chainID depth = confirmed_rows db chainID depth"
  unfolding confirmed_rows_joined latest_head_relabel
  by (simp add: relabel_chains_def comp_def joined_relabel)

lemma unconfirmedQuery_relabel: "unconfirmedQuery (relabel_chains f db) = unconfirmedQuery db"
  by (simp add: unconfirmedQuery_def relabel_chains_def comp_def)

lemma joined_count:
  assumes "tx_meta_RequestID et = Some r"
    and "eta_eth_tx_id eta = tx_id et" and "er_tx_hash er = eta_hash eta"
  shows "int (count_list (joined H depth et eta er) r)
       = (case H of None \<Rightarrow> 0 | Some h \<Rightarrow> if h - depth \<le> er_block_number er then 1 else 0)"
  using assms by (simp add: joined_def split: option.split)

lemma confirmed_insert_any_head:
  assumes meta: "tx_meta_RequestID et = Some r"
    and link: "eta_eth_tx_id eta = tx_id et" "er_tx_hash er = eta_hash eta"
    and fresh_id: "tx_id et \<notin> set (map tx_id (eth_txes db))"
    and fresh_att: "tx_id et \<notin> set (map eta_eth_tx_id (eth_tx_attempts db))"
    and fresh_hash: "eta_hash eta \<notin> set (map eta_hash (eth_tx_attempts db))"
    and fresh_rc: "eta_hash eta \<notin> set (map er_tx_hash (eth_receipts db))"
  shows "count_of (confirmedQuery (insert_confirmed db et eta er) chainID depth) r
       = count_of (confirmedQuery db chainID depth) r
         + (case latest_head db chainID of
              None \<Rightarrow> 0
            | Some h \<Rightarrow> if h - depth \<le> er_block_number er then 1 else 0)"
proof -
  have "count_list (confirmed_rows (insert_confirmed db et eta er) chainID depth) r
      = count_list (confirmed_rows db chainID depth) r
        + count_list (joined (latest_head db chainID) depth et eta er) r"
  proof (rule count_joined_new)
    show "\<forall>t\<in>set (eth_txes db). tx_id t \<noteq> tx_id et"
      using fresh_id by (metis image_eqI list.set_map)
    show "\<forall>a\<in>set (eth_tx_attempts db). eta_eth_tx_id a \<noteq> tx_id et \<and> eta_hash a \<noteq> eta_hash eta"
      using fresh_att fresh_hash by (metis image_eqI list.set_map)
    show "\<forall>x\<in>set (eth_receipts db). er_tx_hash x \<noteq> eta_hash eta"
      using fresh_rc by (metis image_eqI list.set_map)
  qed (rule link)+
  then have "count_of (confirmedQuery (insert_confirmed db et eta er) chainID depth) r
      = count_of (confirmedQuery db chainID depth) r
        + int (count_list (joined (latest_head db chainID) depth et eta er) r)"
    by (simp add: confirmedQuery_def count_of_group_count)
  then show ?thesis
    by (simp only: joined_count [OF meta link])
qed

lemma unconfirmed_insert_confirmed:
  assumes "tx_meta_RequestID et = Some r"
  shows "count_of (unconfirmedQuery (insert_confirmed db et eta er)) r
       = count_of (unconfirmedQuery db) r + (if tx_state et \<in> set unconfirmed_states then 1 else 0)"
  using assms
  by (simp add: unconfirmedQuery_def count_of_group_count insert_confirmed_def count_list_append)

lemma p4_base_counts:
  "count_of (query_rows (getRespCounts p4_store 1 50)) (store_quoted reqB) = 1"
  "count_of (query_rows (getRespCounts p4_store 1 50)) (store_quoted reqC) = 3"
  by (simp_all add: p4_rows query_rows_def count_of_def store_quoted_inj req_distinct)

lemma p4_no_head_56: "latest_head p4_db 56 = None"
  by (simp add: latest_head_def p4_db_def)

lemma p4_rows_56: "count_of (query_rows (getRespCounts p4_store 56 50)) (store_quoted reqC) = 0"
proof -
  have "confirmed_rows p4_db 56 50 = []"
    unfolding confirmed_rows_joined p4_no_head_56
    by (simp add: p4_db_def tagged_tx_def joined_def)
  then show ?thesis
    by (simp add: getRespCounts_def query_rows_def p4_store_def count_of_append confirmedQuery_def
        count_of_group_count)
       (simp add: unconfirmedQuery_def count_of_group_count p4_db_def tagged_tx_def
        unconfirmed_states_def store_quoted_inj req_distinct)
qed

text \<open>
  C10. The chain identifier passed to the query selects the latest head that bounds the
  confirmed set, and nothing else. Two chains with the same latest head give the same rows,
  and replacing the chain of every transaction in the store changes no row. A tagged
  transaction inserted in flight adds one to the count of its identifier whatever chain it
  belongs to. A tagged transaction inserted with an attempt and its receipt, whatever chain
  it belongs to, adds one to the count of its identifier exactly when the chain passed has a
  latest head \<open>h\<close> and the receipt is at block \<open>h - depth\<close> or later (and one more when the
  transaction is itself in one of the in-flight states): a confirmed transaction of another
  chain is counted against the head of the chain passed.
\<close>

theorem chain_id_only_selects_head:
  assumes "latest_head (q_db q) (uint c1) = latest_head (q_db q) (uint c2)"
    and "q_err q = None"
    and "tx_meta_RequestID et = Some r"
    and "tx_state et \<in> set unconfirmed_states"
    and "tx_id et \<notin> set (map eta_eth_tx_id (eth_tx_attempts (q_db q)))"
    and "tx_meta_RequestID ct = Some r'"
    and "eta_eth_tx_id eta = tx_id ct"
    and "er_tx_hash er = eta_hash eta"
    and "tx_id ct \<notin> set (map tx_id (eth_txes (q_db q)))"
    and "tx_id ct \<notin> set (map eta_eth_tx_id (eth_tx_attempts (q_db q)))"
    and "eta_hash eta \<notin> set (map eta_hash (eth_tx_attempts (q_db q)))"
    and "eta_hash eta \<notin> set (map er_tx_hash (eth_receipts (q_db q)))"
  shows "snd (getRespCounts q c1 depth) = snd (getRespCounts q c2 depth)
       \<and> getRespCounts (q\<lparr>q_db := relabel_chains f (q_db q)\<rparr>) c1 depth = getRespCounts q c1 depth
       \<and> count_of (query_rows (getRespCounts (q\<lparr>q_db := insert_tx (q_db q) et\<rparr>) c1 depth)) r
           = count_of (query_rows (getRespCounts q c1 depth)) r + 1
       \<and> count_of (query_rows
            (getRespCounts (q\<lparr>q_db := insert_confirmed (q_db q) ct eta er\<rparr>) c1 depth)) r'
           = count_of (query_rows (getRespCounts q c1 depth)) r'
             + (if tx_state ct \<in> set unconfirmed_states then 1 else 0)
             + (case latest_head (q_db q) (uint c1) of
                  None \<Rightarrow> 0
                | Some h \<Rightarrow> if h - uint depth \<le> er_block_number er then 1 else 0)"
proof -
  have same_head: "snd (getRespCounts q c1 depth) = snd (getRespCounts q c2 depth)"
    using assms(1)
    by (simp add: getRespCounts_def confirmedQuery_def confirmed_rows_joined split: option.split)
  have relabel: "getRespCounts (q\<lparr>q_db := relabel_chains f (q_db q)\<rparr>) c1 depth = getRespCounts q c1 depth"
    by (simp add: getRespCounts_def confirmedQuery_def confirmed_rows_relabel unconfirmedQuery_relabel
        split: option.split)
  have inflight: "count_of (query_rows (getRespCounts (q\<lparr>q_db := insert_tx (q_db q) et\<rparr>) c1 depth)) r
           = count_of (query_rows (getRespCounts q c1 depth)) r + 1"
    using assms(2-5)
    by (simp add: getRespCounts_def query_rows_def count_of_append confirmedQuery_def
        confirmed_rows_insert_tx unconfirmed_insert_tx)
  have rows: "query_rows (getRespCounts p c depth)
      = unconfirmedQuery (q_db p) @ confirmedQuery (q_db p) (uint c) (uint depth)"
    if "q_err p = None" for p c
    using that by (simp add: getRespCounts_def query_rows_def)
  have "count_of (query_rows
            (getRespCounts (q\<lparr>q_db := insert_confirmed (q_db q) ct eta er\<rparr>) c1 depth)) r'
           = count_of (query_rows (getRespCounts q c1 depth)) r'
             + (if tx_state ct \<in> set unconfirmed_states then 1 else 0)
             + (case latest_head (q_db q) (uint c1) of
                  None \<Rightarrow> 0
                | Some h \<Rightarrow> if h - uint depth \<le> er_block_number er then 1 else 0)"
    using assms(2)
    by (simp add: rows count_of_append unconfirmed_insert_confirmed [OF assms(6)]
        confirmed_insert_any_head [OF assms(6-12)])
  with same_head relabel inflight show ?thesis by blast
qed

theorem chain_id_only_selects_head_witness:
  "latest_head (q_db p4_store) (uint (1 :: 64 word)) = latest_head (q_db p4_store) (uint (137 :: 64 word))
   \<and> tx_evm_chain_id other_chain_tx = 56
   \<and> tx_evm_chain_id other_chain_confirmed_tx = 56
   \<and> snd (getRespCounts p4_store 1 50) = snd (getRespCounts p4_store 137 50)
   \<and> getRespCounts (p4_store\<lparr>q_db := relabel_chains tx_id (q_db p4_store)\<rparr>) 1 50
       = getRespCounts p4_store 1 50
   \<and> count_of (query_rows (getRespCounts (p4_store\<lparr>q_db := insert_tx (q_db p4_store) other_chain_tx\<rparr>) 1 50))
        (store_quoted reqB) = 2
   \<and> count_of (query_rows (getRespCounts
        (p4_store\<lparr>q_db := insert_confirmed (q_db p4_store) other_chain_confirmed_tx new_attempt
                              (new_receipt\<lparr>er_block_number := 950\<rparr>)\<rparr>) 1 50))
        (store_quoted reqC) = 4
   \<and> count_of (query_rows (getRespCounts
        (p4_store\<lparr>q_db := insert_confirmed (q_db p4_store) other_chain_confirmed_tx new_attempt
                              (new_receipt\<lparr>er_block_number := 949\<rparr>)\<rparr>) 1 50))
        (store_quoted reqC) = 3
   \<and> count_of (query_rows (getRespCounts
        (p4_store\<lparr>q_db := insert_confirmed (q_db p4_store) other_chain_confirmed_tx new_attempt
                              (new_receipt\<lparr>er_block_number := 950\<rparr>)\<rparr>) 56 50))
        (store_quoted reqC) = 0"
proof -
  have h1: "latest_head (q_db p4_store) (uint (1 :: 64 word)) = latest_head (q_db p4_store) (uint (137 :: 64 word))"
    by (simp add: p4_store_def p4_heads)
  have h1': "latest_head (q_db p4_store) (uint (56 :: 64 word)) = latest_head (q_db p4_store) (uint (56 :: 64 word))"
    by simp
  have h2: "q_err p4_store = None" by (simp add: p4_store_def)
  have h3: "tx_meta_RequestID other_chain_tx = Some (store_quoted reqB)"
    by (simp add: other_chain_tx_def tagged_tx_def)
  have h4: "tx_state other_chain_tx \<in> set unconfirmed_states"
    by (simp add: other_chain_tx_def tagged_tx_def unconfirmed_states_def)
  have h5: "tx_id other_chain_tx \<notin> set (map eta_eth_tx_id (eth_tx_attempts (q_db p4_store)))"
    by (simp add: other_chain_tx_def tagged_tx_def p4_store_def p4_db_def)
  have h6: "tx_meta_RequestID other_chain_confirmed_tx = Some (store_quoted reqC)"
    by (simp add: other_chain_confirmed_tx_def tagged_tx_def)
  have h7: "eta_eth_tx_id new_attempt = tx_id other_chain_confirmed_tx"
    by (simp add: new_attempt_def other_chain_confirmed_tx_def tagged_tx_def)
  have h8: "er_tx_hash (new_receipt\<lparr>er_block_number := b\<rparr>) = eta_hash new_attempt" for b
    by (simp add: new_attempt_def new_receipt_def)
  have h9: "tx_id other_chain_confirmed_tx \<notin> set (map tx_id (eth_txes (q_db p4_store)))"
    by (simp add: other_chain_confirmed_tx_def tagged_tx_def p4_store_def p4_db_def)
  have h10: "tx_id other_chain_confirmed_tx \<notin> set (map eta_eth_tx_id (eth_tx_attempts (q_db p4_store)))"
    by (simp add: other_chain_confirmed_tx_def tagged_tx_def p4_store_def p4_db_def)
  have h11: "eta_hash new_attempt \<notin> set (map eta_hash (eth_tx_attempts (q_db p4_store)))"
    by (simp add: new_attempt_def p4_store_def p4_db_def)
  have h12: "eta_hash new_attempt \<notin> set (map er_tx_hash (eth_receipts (q_db p4_store)))"
    by (simp add: new_attempt_def p4_store_def p4_db_def)
  have chain: "tx_evm_chain_id other_chain_tx = 56" "tx_evm_chain_id other_chain_confirmed_tx = 56"
    by (simp_all add: other_chain_tx_def other_chain_confirmed_tx_def tagged_tx_def)
  have state: "tx_state other_chain_confirmed_tx \<notin> set unconfirmed_states"
    by (simp add: other_chain_confirmed_tx_def tagged_tx_def unconfirmed_states_def)
  have heads: "latest_head (q_db p4_store) 1 = Some 1000"
    "latest_head (q_db p4_store) 137 = Some 1000"
    "latest_head (q_db p4_store) 56 = None"
    by (simp_all add: p4_store_def p4_heads p4_no_head_56)
  note at = chain_id_only_selects_head [OF h1 h2 h3 h4 h5 h6 h7 h8 [of 950] h9 h10 h11 h12,
      where depth = 50 and f = tx_id]
  note below = chain_id_only_selects_head [OF h1 h2 h3 h4 h5 h6 h7 h8 [of 949] h9 h10 h11 h12,
      where depth = 50 and f = tx_id]
  note nohead = chain_id_only_selects_head [OF h1' h2 h3 h4 h5 h6 h7 h8 [of 950] h9 h10 h11 h12,
      where depth = 50 and f = tx_id]
  show ?thesis
    using chain at below nohead
    by (simp add: p4_base_counts p4_rows_56 state heads new_receipt_def)
qed

section \<open>The version of the listener\<close>

lemma tasks_loop_no_vrf:
  "first_vrf_task tasks = None \<Longrightarrow>
   tasks_loop env d jb chain c1 c2 lV1 lV2 tasks = ([], Inr (Inl no_vrf_task_error))"
  by (induction tasks) (auto simp: first_vrf_task_def no_vrf_task_error_def split: if_splits)

lemma tasks_loop_first:
  "first_vrf_task tasks = Some task \<Longrightarrow>
   tasks_loop env d jb chain c1 c2 lV1 lV2 tasks = tasks_loop env d jb chain c1 c2 lV1 lV2 [task]"
  by (induction tasks) (auto simp: first_vrf_task_def split: if_splits)

lemma ServicesForSpec_resolved:
  assumes "VRFSpec jb = Some vs" "PipelineSpec jb = Some ps" "e_Pipeline env ps = Inr pl"
    and "d_cc d (EVMChainID vs) = Inr chain"
    and "e_NewVRFCoordinator env (CoordinatorAddress vs) (chain_Client chain) = Inr c1"
    and "e_NewVRFCoordinatorV2 env (CoordinatorAddress vs) (chain_Client chain) = Inr c2"
  shows "ServicesForSpec env d jb =
           ([ChainSetGet (EVMChainID vs), NewVRFCoordinator (CoordinatorAddress vs),
             NewVRFCoordinatorV2 (CoordinatorAddress vs)]
              @ fst (tasks_loop env d jb chain c1 c2 (fst (spec_loggers d jb vs))
                       (snd (spec_loggers d jb vs)) (Tasks pl)),
            snd (tasks_loop env d jb chain c1 c2 (fst (spec_loggers d jb vs))
                       (snd (spec_loggers d jb vs)) (Tasks pl)))"
  using assms by (simp add: ServicesForSpec_def case_prod_unfold)

lemma returned_versions_prepend:
  "returned_versions (evs @ fst res, snd res) = returned_versions res"
  by (cases res rule: returned_versions.cases) simp_all

lemma tasks_loop_V2_versions:
  "returned_versions (tasks_loop env d jb chain c1 c2 lV1 lV2 [VRFTaskV2]) = None
   \<or> returned_versions (tasks_loop env d jb chain c1 c2 lV1 lV2 [VRFTaskV2]) = Some [V2]"
  by (simp split: sum.splits prod.splits)

lemma tasks_loop_V1_versions:
  "returned_versions (tasks_loop env d jb chain c1 c2 lV1 lV2 [VRFTask]) = None
   \<or> returned_versions (tasks_loop env d jb chain c1 c2 lV1 lV2 [VRFTask]) = Some [V1]"
  by (simp split: sum.splits prod.splits)

lemma tasks_loop_V2_listener:
  assumes "e_LINKETHFEED env c2 = Inr feed"
    and "e_NewAggregatorV3Interface env feed (chain_Client chain) = Inr aggregator"
    and "snd (GetStartingResponseCountsV2 (d_q d) lV2 (ChainID_Uint64 (chain_Client chain))
               (EvmFinalityDepth (chain_Config chain))) = Inr counts"
  shows "\<exists>lsn. snd (tasks_loop env d jb chain c1 c2 lV1 lV2 [VRFTaskV2]) = Inr (Inr [ListenerV2 lsn])
           \<and> l2_respCount lsn = counts \<and> l2_l lsn = lV2 \<and> l2_coordinator lsn = c2
           \<and> l2_aggregator lsn = aggregator \<and> l2_job lsn = jb"
  using assms by (auto split: sum.splits prod.splits)

lemma tasks_loop_V1_listener:
  assumes "snd (GetStartingResponseCountsV1 (d_q d) lV1 (ChainID_Uint64 (chain_Client chain))
               (EvmFinalityDepth (chain_Config chain))) = Inr counts"
  shows "\<exists>lsn. snd (tasks_loop env d jb chain c1 c2 lV1 lV2 [VRFTask]) = Inr (Inr [ListenerV1 lsn])
           \<and> l1_respCount lsn = counts \<and> l1_l lsn = lV1 \<and> l1_coordinator lsn = c1 \<and> l1_job lsn = jb"
  using assms by (auto split: sum.splits prod.splits)

lemma returned_versions_listener:
  "snd res = Inr (Inr ls) \<Longrightarrow> returned_versions res = Some (map listener_version ls)"
  by (cases res rule: returned_versions.cases) simp_all

lemma job0_resolves:
  "VRFSpec (job0 dag) = Some vrf_spec0"
  "PipelineSpec (job0 dag) = Some \<lparr>DotDagSource = dag\<rparr>"
  "d_cc (delegate0 store) (EVMChainID vrf_spec0) = Inr chain0"
  "e_NewVRFCoordinator env0 (CoordinatorAddress vrf_spec0) (chain_Client chain0)
     = Inr \<lparr>b_address = ''0xc0'', b_client = chain_Client chain0\<rparr>"
  "e_NewVRFCoordinatorV2 env0 (CoordinatorAddress vrf_spec0) (chain_Client chain0)
     = Inr \<lparr>b_address = ''0xc0'', b_client = chain_Client chain0\<rparr>"
  "e_NewVRFCoordinator env_feed_down (CoordinatorAddress vrf_spec0) (chain_Client chain0)
     = Inr \<lparr>b_address = ''0xc0'', b_client = chain_Client chain0\<rparr>"
  "e_NewVRFCoordinatorV2 env_feed_down (CoordinatorAddress vrf_spec0) (chain_Client chain0)
     = Inr \<lparr>b_address = ''0xc0'', b_client = chain_Client chain0\<rparr>"
  by (simp_all add: job0_def delegate0_def vrf_spec0_def env0_def env_feed_down_def)

lemma env0_pipelines:
  "e_Pipeline env0 \<lparr>DotDagSource = ''v2''\<rparr>
     = Inr \<lparr>Tasks = [OtherTask ''decode_log'', VRFTaskV2, OtherTask ''submit_tx'']\<rparr>"
  "e_Pipeline env0 \<lparr>DotDagSource = ''v1''\<rparr>
     = Inr \<lparr>Tasks = [OtherTask ''decode_log'', VRFTask, OtherTask ''submit_tx'']\<rparr>"
  "e_Pipeline env0 \<lparr>DotDagSource = ''v1 then v2''\<rparr> = Inr \<lparr>Tasks = [VRFTask, VRFTaskV2]\<rparr>"
  "e_Pipeline env0 \<lparr>DotDagSource = ''none''\<rparr>
     = Inr \<lparr>Tasks = [OtherTask ''decode_log'', OtherTask ''submit_tx'']\<rparr>"
  "e_Pipeline env_feed_down = e_Pipeline env0"
  by (simp_all add: env0_def env_feed_down_def)

lemma chain0_args:
  "ChainID_Uint64 (chain_Client chain0) = 1" "EvmFinalityDepth (chain_Config chain0) = 50"
  "d_q (delegate0 store) = store"
  by (simp_all add: chain0_def ChainID_Uint64_def delegate0_def)

text \<open>
  C5, as amended. Take a job whose two specifications are present, whose pipeline compiles,
  whose chain is found and whose two coordinator bindings are made. The first task of the
  pipeline that is a VRF task of either version decides. When there is none, the call
  returns the error that a vrf task is expected. When it is a V2 task, the call returns no
  V1 listener; when moreover the price feed address is read, the aggregator is bound and the
  V2 starting counts are computed, it returns one V2 listener holding these counts, the V2
  coordinator and the aggregator. When it is a V1 task, the call returns no V2 listener,
  and when the V1 starting counts are computed it returns one V1 listener holding them and
  the V1 coordinator. Whenever listeners are returned, there is exactly one.
\<close>

theorem first_vrf_task_decides:
  assumes "VRFSpec jb = Some vs" and "PipelineSpec jb = Some ps" and "e_Pipeline env ps = Inr pl"
    and "d_cc d (EVMChainID vs) = Inr chain"
    and "e_NewVRFCoordinator env (CoordinatorAddress vs) (chain_Client chain) = Inr coordinator"
    and "e_NewVRFCoordinatorV2 env (CoordinatorAddress vs) (chain_Client chain) = Inr coordinatorV2"
  shows "(first_vrf_task (Tasks pl) = None \<longrightarrow>
            snd (ServicesForSpec env d jb) = Inr (Inl no_vrf_task_error))
       \<and> (first_vrf_task (Tasks pl) = Some VRFTaskV2 \<longrightarrow>
            returned_versions (ServicesForSpec env d jb) = None
            \<or> returned_versions (ServicesForSpec env d jb) = Some [V2])
       \<and> (first_vrf_task (Tasks pl) = Some VRFTask \<longrightarrow>
            returned_versions (ServicesForSpec env d jb) = None
            \<or> returned_versions (ServicesForSpec env d jb) = Some [V1])
       \<and> (first_vrf_task (Tasks pl) = Some VRFTaskV2
            \<and> e_LINKETHFEED env coordinatorV2 = Inr feed
            \<and> e_NewAggregatorV3Interface env feed (chain_Client chain) = Inr aggregator
            \<and> snd (GetStartingResponseCountsV2 (d_q d) (snd (spec_loggers d jb vs))
                     (ChainID_Uint64 (chain_Client chain)) (EvmFinalityDepth (chain_Config chain)))
                = Inr counts2 \<longrightarrow>
            (\<exists>lsn. snd (ServicesForSpec env d jb) = Inr (Inr [ListenerV2 lsn])
                \<and> l2_respCount lsn = counts2 \<and> l2_coordinator lsn = coordinatorV2
                \<and> l2_aggregator lsn = aggregator \<and> l2_job lsn = jb))
       \<and> (first_vrf_task (Tasks pl) = Some VRFTask
            \<and> snd (GetStartingResponseCountsV1 (d_q d) (fst (spec_loggers d jb vs))
                     (ChainID_Uint64 (chain_Client chain)) (EvmFinalityDepth (chain_Config chain)))
                = Inr counts1 \<longrightarrow>
            (\<exists>lsn. snd (ServicesForSpec env d jb) = Inr (Inr [ListenerV1 lsn])
                \<and> l1_respCount lsn = counts1 \<and> l1_coordinator lsn = coordinator \<and> l1_job lsn = jb))
       \<and> (returned_versions (ServicesForSpec env d jb) = None
            \<or> returned_versions (ServicesForSpec env d jb) = Some [V1]
            \<or> returned_versions (ServicesForSpec env d jb) = Some [V2])"
proof -
  let ?lV1 = "fst (spec_loggers d jb vs)" and ?lV2 = "snd (spec_loggers d jb vs)"
  let ?loop = "tasks_loop env d jb chain coordinator coordinatorV2 ?lV1 ?lV2"
  note R = ServicesForSpec_resolved [OF assms]
  have snd_R: "snd (ServicesForSpec env d jb) = snd (?loop (Tasks pl))"
    by (simp add: R)
  have ver_R: "returned_versions (ServicesForSpec env d jb) = returned_versions (?loop (Tasks pl))"
    unfolding R by (rule returned_versions_prepend)
  have none: "first_vrf_task (Tasks pl) = None \<Longrightarrow>
      snd (ServicesForSpec env d jb) = Inr (Inl no_vrf_task_error)"
    by (simp add: snd_R tasks_loop_no_vrf)
  have none_ver: "first_vrf_task (Tasks pl) = None \<Longrightarrow>
      returned_versions (ServicesForSpec env d jb) = None"
    by (simp add: ver_R tasks_loop_no_vrf)
  have v2: "first_vrf_task (Tasks pl) = Some VRFTaskV2 \<Longrightarrow>
      returned_versions (ServicesForSpec env d jb) = None
      \<or> returned_versions (ServicesForSpec env d jb) = Some [V2]"
    unfolding ver_R by (simp only: tasks_loop_first tasks_loop_V2_versions)
  have v1: "first_vrf_task (Tasks pl) = Some VRFTask \<Longrightarrow>
      returned_versions (ServicesForSpec env d jb) = None
      \<or> returned_versions (ServicesForSpec env d jb) = Some [V1]"
    unfolding ver_R by (simp only: tasks_loop_first tasks_loop_V1_versions)
  have l2: "\<exists>lsn. snd (ServicesForSpec env d jb) = Inr (Inr [ListenerV2 lsn])
                \<and> l2_respCount lsn = counts2 \<and> l2_coordinator lsn = coordinatorV2
                \<and> l2_aggregator lsn = aggregator \<and> l2_job lsn = jb"
    if "first_vrf_task (Tasks pl) = Some VRFTaskV2"
      and "e_LINKETHFEED env coordinatorV2 = Inr feed"
      and "e_NewAggregatorV3Interface env feed (chain_Client chain) = Inr aggregator"
      and "snd (GetStartingResponseCountsV2 (d_q d) ?lV2
                     (ChainID_Uint64 (chain_Client chain)) (EvmFinalityDepth (chain_Config chain)))
                = Inr counts2"
    using tasks_loop_V2_listener [OF that(2-4), of jb coordinator ?lV1]
    unfolding snd_R tasks_loop_first [OF that(1)] by blast
  have l1: "\<exists>lsn. snd (ServicesForSpec env d jb) = Inr (Inr [ListenerV1 lsn])
                \<and> l1_respCount lsn = counts1 \<and> l1_coordinator lsn = coordinator \<and> l1_job lsn = jb"
    if "first_vrf_task (Tasks pl) = Some VRFTask"
      and "snd (GetStartingResponseCountsV1 (d_q d) ?lV1
                     (ChainID_Uint64 (chain_Client chain)) (EvmFinalityDepth (chain_Config chain)))
                = Inr counts1"
    using tasks_loop_V1_listener [OF that(2), of env jb coordinator coordinatorV2 ?lV2]
    unfolding snd_R tasks_loop_first [OF that(1)] by blast
  have one: "returned_versions (ServicesForSpec env d jb) = None
            \<or> returned_versions (ServicesForSpec env d jb) = Some [V1]
            \<or> returned_versions (ServicesForSpec env d jb) = Some [V2]"
  proof (cases "first_vrf_task (Tasks pl)")
    case None
    then show ?thesis by (simp add: none_ver)
  next
    case (Some task)
    then have "task = VRFTaskV2 \<or> task = VRFTask"
      by (auto simp: first_vrf_task_def dest: find_Some_iff [THEN iffD1])
    with Some v1 v2 show ?thesis by blast
  qed
  from none v2 v1 l2 l1 one show ?thesis by blast
qed

theorem first_vrf_task_decides_witness:
  "first_vrf_task [OtherTask ''decode_log'', VRFTaskV2, OtherTask ''submit_tx''] = Some VRFTaskV2
   \<and> returned_versions (ServicesForSpec env0 (delegate0 p4_store) (job0 ''v2'')) = Some [V2]
   \<and> first_vrf_task [OtherTask ''decode_log'', VRFTask, OtherTask ''submit_tx''] = Some VRFTask
   \<and> returned_versions (ServicesForSpec env0 (delegate0 p4_store) (job0 ''v1'')) = Some [V1]
   \<and> first_vrf_task [OtherTask ''decode_log'', OtherTask ''submit_tx''] = None
   \<and> snd (ServicesForSpec env0 (delegate0 p4_store) (job0 ''none'')) = Inr (Inl no_vrf_task_error)"
proof -
  let ?d = "delegate0 p4_store"
  let ?c = "\<lparr>b_address = ''0xc0'', b_client = chain_Client chain0\<rparr>"
  have f2: "first_vrf_task [OtherTask ''decode_log'', VRFTaskV2, OtherTask ''submit_tx''] = Some VRFTaskV2"
    and f1: "first_vrf_task [OtherTask ''decode_log'', VRFTask, OtherTask ''submit_tx''] = Some VRFTask"
    and f0: "first_vrf_task [OtherTask ''decode_log'', OtherTask ''submit_tx''] = None"
    by (simp_all add: first_vrf_task_def)
  have feed: "e_LINKETHFEED env0 ?c = Inr ''0xfeed''"
    and agg: "e_NewAggregatorV3Interface env0 ''0xfeed'' (chain_Client chain0)
        = Inr \<lparr>b_address = ''0xfeed'', b_client = chain_Client chain0\<rparr>"
    by (simp_all add: env0_def)
  have c2: "snd (GetStartingResponseCountsV2 (d_q ?d) (snd (spec_loggers ?d (job0 ''v2'') vrf_spec0))
        (ChainID_Uint64 (chain_Client chain0)) (EvmFinalityDepth (chain_Config chain0)))
      = Inr [''170'' \<mapsto> 1, ''187'' \<mapsto> 1, ''204'' \<mapsto> 3]"
    by (simp add: chain0_args p4_counts_V2)
  have c1: "snd (GetStartingResponseCountsV1 (d_q ?d) (fst (spec_loggers ?d (job0 ''v1'') vrf_spec0))
        (ChainID_Uint64 (chain_Client chain0)) (EvmFinalityDepth (chain_Config chain0)))
      = Inr [reqA \<mapsto> 1, reqB \<mapsto> 1, reqC \<mapsto> 3]"
    by (simp add: chain0_args p4_counts_V1)
  note v2 = first_vrf_task_decides [OF job0_resolves(1,2) env0_pipelines(1) job0_resolves(3,4,5),
      of p4_store "''0xfeed''" "\<lparr>b_address = ''0xfeed'', b_client = chain_Client chain0\<rparr>"
         "[''170'' \<mapsto> 1, ''187'' \<mapsto> 1, ''204'' \<mapsto> 3]"]
  note v1 = first_vrf_task_decides [OF job0_resolves(1,2) env0_pipelines(2) job0_resolves(3,4,5),
      of p4_store _ _ _ "[reqA \<mapsto> 1, reqB \<mapsto> 1, reqC \<mapsto> 3]"]
  note v0 = first_vrf_task_decides [OF job0_resolves(1,2) env0_pipelines(4) job0_resolves(3,4,5),
      of p4_store]
  have "returned_versions (ServicesForSpec env0 ?d (job0 ''v2'')) = Some [V2]"
    using v2 f2 feed agg c2 by (auto dest!: returned_versions_listener)
  moreover have "returned_versions (ServicesForSpec env0 ?d (job0 ''v1'')) = Some [V1]"
    using v1 f1 c1 by (auto dest!: returned_versions_listener)
  moreover have "snd (ServicesForSpec env0 ?d (job0 ''none'')) = Inr (Inl no_vrf_task_error)"
    using v0 f0 by simp
  ultimately show ?thesis
    using f0 f1 f2 by blast
qed

text \<open>
  The claim C5 as it was stated fails: a pipeline whose tasks are a V1 task followed by a V2
  task contains a V2 task and yields a V1 listener; and a pipeline with a V2 task yields an
  error and no listener when the price feed address cannot be read.
\<close>

theorem claimed_version_counterexample:
  "e_Pipeline env0 \<lparr>DotDagSource = ''v1 then v2''\<rparr> = Inr \<lparr>Tasks = [VRFTask, VRFTaskV2]\<rparr>
   \<and> VRFTaskV2 \<in> set [VRFTask, VRFTaskV2]
   \<and> returned_versions (ServicesForSpec env0 (delegate0 p4_store) (job0 ''v1 then v2'')) = Some [V1]
   \<and> e_Pipeline env_feed_down \<lparr>DotDagSource = ''v2''\<rparr>
       = Inr \<lparr>Tasks = [OtherTask ''decode_log'', VRFTaskV2, OtherTask ''submit_tx'']\<rparr>
   \<and> snd (ServicesForSpec env_feed_down (delegate0 p4_store) (job0 ''v2''))
       = Inr (Inl (External ''feed call failed''))"
proof -
  have mixed: "returned_versions (ServicesForSpec env0 (delegate0 p4_store) (job0 ''v1 then v2'')) = Some [V1]"
    unfolding ServicesForSpec_resolved [OF job0_resolves(1,2) env0_pipelines(3) job0_resolves(3,4,5)]
    by (simp add: chain0_args p4_counts_V1)
  have "e_LINKETHFEED env_feed_down b = Inl (External ''feed call failed'')" for b
    by (simp add: env_feed_down_def)
  then have down: "snd (ServicesForSpec env_feed_down (delegate0 p4_store) (job0 ''v2''))
       = Inr (Inl (External ''feed call failed''))"
    unfolding ServicesForSpec_resolved [OF job0_resolves(1,2)
        env0_pipelines(1) [folded env0_pipelines(5)] job0_resolves(3,6,7)]
    by simp
  from mixed down show ?thesis
    by (simp add: env0_pipelines)
qed

end
